theory Spec2Isabelle
  imports Main "HOL-Library.Multiset"
begin

section \<open>JavaScript values used by the board state\<close>

text \<open>
  The client keeps its state in React hooks of \<^verbatim>\<open>App\<close>. Ids are JavaScript strings,
  a nullable id is \<^verbatim>\<open>string | null\<close>, the columns of a board are a plain object keyed by
  column id, and the tasks of a column are an array. This section embeds the handful of
  JavaScript operations the handlers use, with the corner cases the language defines.
\<close>

text \<open>\<^verbatim>\<open>if (x)\<close> on a \<^verbatim>\<open>string | null\<close>: null and the empty string are falsy.\<close>

definition truthy :: "string option \<Rightarrow> bool" where
  "truthy x = (case x of None \<Rightarrow> False | Some s \<Rightarrow> s \<noteq> [])"

text \<open>\<^verbatim>\<open>a || b\<close> on strings, as in \<^verbatim>\<open>selectedBoard || ''\<close>.\<close>

definition or_else :: "string option \<Rightarrow> string \<Rightarrow> string" where
  "or_else x d = (case x of None \<Rightarrow> d | Some s \<Rightarrow> if s = [] then d else s)"

text \<open>\<^verbatim>\<open>Array.prototype.findIndex\<close>: the first index whose element satisfies the
  predicate, \<open>-1\<close> when there is none.\<close>

fun findIndex :: "('a \<Rightarrow> bool) \<Rightarrow> 'a list \<Rightarrow> int" where
  "findIndex P [] = -1"
| "findIndex P (x # xs) =
     (if P x then 0 else (let r = findIndex P xs in if r = -1 then -1 else r + 1))"

text \<open>
  \<^verbatim>\<open>Array.prototype.splice(start, deleteCount, ...items)\<close> on a copy of the array: a
  negative \<open>start\<close> counts from the end and is clamped at the front, a \<open>start\<close> beyond the
  length is clamped at the end, and \<open>deleteCount\<close> is clamped to what is left. The result
  is the pair of the removed elements and the array after the call. It never throws.
\<close>

definition Array_splice :: "int \<Rightarrow> int \<Rightarrow> 'a list \<Rightarrow> 'a list \<Rightarrow> 'a list \<times> 'a list" where
  "Array_splice start deleteCount items xs =
     (let len = int (length xs);
          s = nat (if start < 0 then max (len + start) 0 else min start len);
          d = nat (min (max deleteCount 0) (len - int s))
      in (take d (drop s xs), take s xs @ items @ drop (s + d) xs))"

subsection \<open>Plain objects as ordered dictionaries\<close>

text \<open>
  A plain object is embedded as the list of its own properties in the order
  \<^verbatim>\<open>Object.entries\<close>, \<^verbatim>\<open>Object.keys\<close> and \<^verbatim>\<open>Object.values\<close> enumerate them:
  keys that are array indices first, in ascending numeric order, then every other key in
  the order it was created. An array index is the canonical decimal numeral of an integer
  below \<open>2^32 - 1\<close>.
\<close>

type_synonym 'v js_object = "(string \<times> 'v) list"

definition is_digit :: "char \<Rightarrow> bool" where
  "is_digit c = (c \<in> set ''0123456789'')"

definition digit_value :: "char \<Rightarrow> int" where
  "digit_value c = of_char c - 48"

definition index_value :: "string \<Rightarrow> int" where
  "index_value s = foldl (\<lambda>n c. 10 * n + digit_value c) 0 s"

definition array_index :: "string \<Rightarrow> bool" where
  "array_index s =
     (s \<noteq> [] \<and> list_all is_digit s \<and> (length s = 1 \<or> hd s \<noteq> CHR ''0'')
      \<and> index_value s < 4294967295)"

definition Object_entries :: "'v js_object \<Rightarrow> (string \<times> 'v) list" where
  "Object_entries obj = obj"

definition Object_keys :: "'v js_object \<Rightarrow> string list" where
  "Object_keys obj = map fst obj"

text \<open>The board renders the columns in the order of \<^verbatim>\<open>Object.values(columns)\<close>.\<close>

definition Object_values :: "'v js_object \<Rightarrow> 'v list" where
  "Object_values obj = map snd obj"

text \<open>\<^verbatim>\<open>obj[k]\<close> for reading: \<open>None\<close> is \<^verbatim>\<open>undefined\<close>. Only own properties are
  modelled; ids are never names inherited from \<^verbatim>\<open>Object.prototype\<close>.\<close>

definition get_prop :: "'v js_object \<Rightarrow> string \<Rightarrow> 'v option" where
  "get_prop obj k = map_of obj k"

text \<open>Where a new array-index key is placed: after the array indices below it.\<close>

fun insert_index :: "string \<Rightarrow> 'v \<Rightarrow> 'v js_object \<Rightarrow> 'v js_object" where
  "insert_index k v [] = [(k, v)]"
| "insert_index k v ((k', v') # obj) =
     (if array_index k' \<and> index_value k' < index_value k
      then (k', v') # insert_index k v obj
      else (k, v) # (k', v') # obj)"

text \<open>\<^verbatim>\<open>obj[k] = v\<close>: an existing property keeps its place and gets the new value, a
  new one is created at the place the enumeration order gives it.\<close>

definition set_prop :: "string \<Rightarrow> 'v \<Rightarrow> 'v js_object \<Rightarrow> 'v js_object" where
  "set_prop k v obj =
     (if k \<in> set (map fst obj)
      then map (\<lambda>(k', v'). if k' = k then (k', v) else (k', v')) obj
      else if array_index k then insert_index k v obj
      else obj @ [(k, v)])"

text \<open>\<^verbatim>\<open>Object.fromEntries(entries)\<close> sets the properties one after the other on a
  fresh object; the spread \<^verbatim>\<open>{ ...obj }\<close> does the same with the object's own entries.\<close>

definition Object_fromEntries :: "(string \<times> 'v) list \<Rightarrow> 'v js_object" where
  "Object_fromEntries entries = foldl (\<lambda>obj (k, v). set_prop k v obj) [] entries"

definition spread :: "'v js_object \<Rightarrow> 'v js_object" where
  "spread obj = Object_fromEntries (Object_entries obj)"

text \<open>The rest pattern \<^verbatim>\<open>const { [k]: removed, ...rest } = obj\<close>.\<close>

definition rest_without :: "string \<Rightarrow> 'v js_object \<Rightarrow> 'v js_object" where
  "rest_without k obj = Object_fromEntries (filter (\<lambda>(k', v'). k' \<noteq> k) (Object_entries obj))"

text \<open>What every object satisfies: no key occurs twice.\<close>

definition distinct_keys :: "'v js_object \<Rightarrow> bool" where
  "distinct_keys obj = distinct (map fst obj)"

text \<open>No key of the object is an array index (column ids are names such as
  \<^verbatim>\<open>todo\<close> or UUIDs), so the enumeration order is the creation order.\<close>

definition no_index_keys :: "'v js_object \<Rightarrow> bool" where
  "no_index_keys obj = list_all (\<lambda>(k, v). \<not> array_index k) obj"

section \<open>The data model\<close>

text \<open>
  Modelled from the spec: the type declarations of \<^verbatim>\<open>./types\<close> (TeamMember, Board,
  Column, Columns, Task, Comment, Priority) are not among the sources. The records below
  follow section 3 of the specification and the object literals the handlers build
  (\<^verbatim>\<open>handleAddTask\<close>, \<^verbatim>\<open>handleAddColumn\<close>, \<^verbatim>\<open>handleAddBoard\<close>,
  \<^verbatim>\<open>handleAddComment\<close>). A field called \<^verbatim>\<open>id\<close>, \<^verbatim>\<open>title\<close> or \<^verbatim>\<open>boardId\<close> in
  the source carries the name of its record as a prefix here.
\<close>

datatype Priority = low | medium | high

record Attachment =
  attachment_id :: string
  attachment_name :: string
  attachment_url :: string
  attachment_type :: string
  attachment_size :: int

record Comment =
  comment_id :: string
  comment_text :: string
  authorId :: string
  createdAt :: string
  attachments :: "Attachment list"

record Task =
  task_id :: string
  task_title :: string
  description :: string
  memberId :: string
  startDate :: string
  effort :: int
  columnId :: string
  priority :: Priority
  requesterId :: string
  task_boardId :: string
  comments :: "Comment list"

record Column =
  column_id :: string
  column_title :: string
  tasks :: "Task list"
  column_boardId :: string

type_synonym Columns = "Column js_object"

record Board =
  board_id :: string
  board_title :: string
  board_columns :: Columns

record TeamMember =
  member_id :: string
  member_name :: string
  color :: string

text \<open>The value of \<^verbatim>\<open>draggedTask\<close> while a task is being dragged.\<close>

record DraggedTask =
  dragged_id :: string
  sourceColumnId :: string
  currentIndex :: int

text \<open>The state hooks of \<^verbatim>\<open>App\<close> (the debug panel's \<^verbatim>\<open>queryLogs\<close>, which no
  handler writes, is left out).\<close>

record AppState =
  members :: "TeamMember list"
  boards :: "Board list"
  selectedBoard :: "string option"
  columns :: Columns
  selectedMember :: "string option"
  draggedColumn :: "string option"
  draggedTask :: "DraggedTask option"
  selectedTask :: "Task option"

section \<open>Persistence calls and the trace of a handler\<close>

text \<open>
  The functions of \<^verbatim>\<open>api\<close> are requests to the HTTP collaborator. A handler awaits
  the request; the promise resolves with the response body or rejects. The outcome is an
  argument of the embedded handler.
\<close>

datatype request =
    createMember TeamMember
  | deleteMember string
  | createBoard Board
  | updateBoard string string
  | deleteBoard string
  | createColumn Column
  | updateColumn string string
  | deleteColumn string
  | createTask Task
  | updateTask Task
  | deleteTask string
  | createComment Comment string

datatype 'a outcome = Resolved 'a | Rejected

text \<open>
  What a handler does, in program order: it issues a request, calls a state setter,
  logs to the console, raises an alert, or dies of an uncaught \<^verbatim>\<open>TypeError\<close>. A setter
  called with an updater function \<^verbatim>\<open>prev => ...\<close> is recorded with the value the
  updater returns on the state of the moment; no other handler runs in between. The last
  two setters belong to the task details panel, whose state is \<open>DetailsState\<close> below.
\<close>

datatype event =
    ApiCall request
  | SetMembers "TeamMember list"
  | SetBoards "Board list"
  | SetSelectedBoard "string option"
  | SetColumns Columns
  | SetSelectedMember "string option"
  | SetDraggedColumn "string option"
  | SetDraggedTask "DraggedTask option"
  | SetSelectedTask "Task option"
  | SetEditedTask Task
  | SetIsSubmitting bool
  | ConsoleError string
  | Alert string
  | UncaughtTypeError

fun apply_event :: "AppState \<Rightarrow> event \<Rightarrow> AppState" where
  "apply_event st (SetMembers ms) = st\<lparr>members := ms\<rparr>"
| "apply_event st (SetBoards bs) = st\<lparr>boards := bs\<rparr>"
| "apply_event st (SetSelectedBoard b) = st\<lparr>selectedBoard := b\<rparr>"
| "apply_event st (SetColumns cs) = st\<lparr>columns := cs\<rparr>"
| "apply_event st (SetSelectedMember m) = st\<lparr>selectedMember := m\<rparr>"
| "apply_event st (SetDraggedColumn c) = st\<lparr>draggedColumn := c\<rparr>"
| "apply_event st (SetDraggedTask d) = st\<lparr>draggedTask := d\<rparr>"
| "apply_event st (SetSelectedTask t) = st\<lparr>selectedTask := t\<rparr>"
| "apply_event st (SetEditedTask t) = st"
| "apply_event st (SetIsSubmitting b) = st"
| "apply_event st (ApiCall r) = st"
| "apply_event st (ConsoleError msg) = st"
| "apply_event st (Alert msg) = st"
| "apply_event st UncaughtTypeError = st"

definition run :: "AppState \<Rightarrow> event list \<Rightarrow> AppState" where
  "run st evs = foldl apply_event st evs"

fun is_request :: "event \<Rightarrow> bool" where
  "is_request (ApiCall r) = True"
| "is_request e = False"

fun is_error_report :: "event \<Rightarrow> bool" where
  "is_error_report (ConsoleError msg) = True"
| "is_error_report (Alert msg) = True"
| "is_error_report e = False"

text \<open>The setters of entity and selection state; the busy flag of the details panel
  is not one of them.\<close>

fun is_state_change :: "event \<Rightarrow> bool" where
  "is_state_change (ApiCall r) = False"
| "is_state_change (SetIsSubmitting b) = False"
| "is_state_change (ConsoleError msg) = False"
| "is_state_change (Alert msg) = False"
| "is_state_change UncaughtTypeError = False"
| "is_state_change e = True"

fun sets_boards :: "event \<Rightarrow> bool" where
  "sets_boards (SetBoards bs) = True"
| "sets_boards e = False"

section \<open>The handlers of App\<close>

text \<open>
  Each handler is a function of the state it closes over, its arguments, the values it
  draws from the environment (\<^verbatim>\<open>crypto.randomUUID()\<close>, the date) and the outcome of the
  request it awaits. Its value is the trace of what it does.
\<close>

subsection \<open>Members\<close>

definition handleAddMember :: "AppState \<Rightarrow> TeamMember \<Rightarrow> TeamMember outcome \<Rightarrow> event list" where
  "handleAddMember st member res =
     ApiCall (createMember member) #
     (case res of
        Resolved createdMember \<Rightarrow>
          SetMembers (members st @ [createdMember]) #
          (if \<not> truthy (selectedMember st)
           then [SetSelectedMember (Some (member_id createdMember))] else [])
      | Rejected \<Rightarrow> [ConsoleError ''Failed to add member:''])"

definition handleRemoveMember :: "AppState \<Rightarrow> string \<Rightarrow> unit outcome \<Rightarrow> event list" where
  "handleRemoveMember st ident res =
     ApiCall (deleteMember ident) #
     (case res of
        Resolved u \<Rightarrow>
          SetMembers (filter (\<lambda>m. member_id m \<noteq> ident) (members st)) #
          (if selectedMember st = Some ident
           then [SetSelectedMember
                   (if length (members st) > 1 then Some (member_id (members st ! 0)) else None)]
           else [])
      | Rejected \<Rightarrow> [ConsoleError ''Failed to remove member:''])"

subsection \<open>Boards\<close>

text \<open>The constant \<^verbatim>\<open>DEFAULT_COLUMNS\<close>: key, id and title of the four columns a new
  board starts with.\<close>

definition DEFAULT_COLUMNS :: "(string \<times> string \<times> string) list" where
  "DEFAULT_COLUMNS =
     [(''todo'', ''todo'', ''To Do''),
      (''progress'', ''progress'', ''In Progress''),
      (''testing'', ''testing'', ''Testing''),
      (''completed'', ''completed'', ''Completed'')]"

definition newBoard :: "AppState \<Rightarrow> string \<Rightarrow> Board" where
  "newBoard st uuid =
     \<lparr>board_id = uuid, board_title = ''New Board'',
      board_columns = Object_fromEntries
        (map (\<lambda>(key, col_id, col_title).
                (key, \<lparr>column_id = col_id, column_title = col_title, tasks = [],
                       column_boardId = or_else (selectedBoard st) []\<rparr>))
             DEFAULT_COLUMNS)\<rparr>"

definition handleAddBoard :: "AppState \<Rightarrow> string \<Rightarrow> Board outcome \<Rightarrow> event list" where
  "handleAddBoard st uuid res =
     ApiCall (createBoard (newBoard st uuid)) #
     (case res of
        Resolved createdBoard \<Rightarrow>
          [SetBoards (boards st @ [createdBoard]),
           SetSelectedBoard (Some (board_id createdBoard)),
           SetColumns (board_columns createdBoard)]
      | Rejected \<Rightarrow> [ConsoleError ''Failed to add board:''])"

definition handleEditBoard :: "AppState \<Rightarrow> string \<Rightarrow> string \<Rightarrow> unit outcome \<Rightarrow> event list" where
  "handleEditBoard st boardId title res =
     ApiCall (updateBoard boardId title) #
     (case res of
        Resolved u \<Rightarrow>
          [SetBoards (map (\<lambda>b. if board_id b = boardId then b\<lparr>board_title := title\<rparr> else b)
                          (boards st))]
      | Rejected \<Rightarrow> [ConsoleError ''Failed to update board:''])"

text \<open>When the filter leaves no board, \<^verbatim>\<open>newBoards[0].id\<close> throws inside the
  \<^verbatim>\<open>try\<close> block, after \<^verbatim>\<open>setBoards\<close>, and the \<^verbatim>\<open>catch\<close> logs it.\<close>

definition handleRemoveBoard :: "AppState \<Rightarrow> string \<Rightarrow> unit outcome \<Rightarrow> event list" where
  "handleRemoveBoard st boardId res =
     (if length (boards st) \<le> 1 then [Alert ''Cannot delete the last board'']
      else
        ApiCall (deleteBoard boardId) #
        (case res of
           Resolved u \<Rightarrow>
             (let newBoards = filter (\<lambda>b. board_id b \<noteq> boardId) (boards st) in
              SetBoards newBoards #
              (if selectedBoard st = Some boardId
               then (case newBoards of
                       [] \<Rightarrow> [ConsoleError ''Failed to remove board:'']
                     | firstBoard # others \<Rightarrow>
                         [SetSelectedBoard (Some (board_id firstBoard)),
                          SetColumns (board_columns firstBoard)])
               else []))
         | Rejected \<Rightarrow> [ConsoleError ''Failed to remove board:'']))"

subsection \<open>Tasks\<close>

text \<open>The updater of \<^verbatim>\<open>handleAddTask\<close> and \<^verbatim>\<open>handleCopyTask\<close>: reading
  \<^verbatim>\<open>prev[columnId].tasks\<close> of a column that is not there throws.\<close>

definition append_task :: "string \<Rightarrow> Task \<Rightarrow> Columns \<Rightarrow> Columns option" where
  "append_task colId createdTask prev =
     (case get_prop prev colId of
        None \<Rightarrow> None
      | Some col \<Rightarrow>
          Some (set_prop colId (col\<lparr>tasks := tasks col @ [createdTask]\<rparr>) (spread prev)))"

definition set_columns_or_throw :: "Columns option \<Rightarrow> event list" where
  "set_columns_or_throw r = (case r of None \<Rightarrow> [UncaughtTypeError] | Some cs \<Rightarrow> [SetColumns cs])"

definition newTask :: "AppState \<Rightarrow> string \<Rightarrow> string \<Rightarrow> string \<Rightarrow> Task" where
  "newTask st colId uuid today =
     \<lparr>task_id = uuid, task_title = ''New Task'', description = ''Task description'',
      memberId = the (selectedMember st), startDate = today, effort = 1, columnId = colId,
      priority = medium, requesterId = the (selectedMember st),
      task_boardId = the (selectedBoard st), comments = []\<rparr>"

definition handleAddTask ::
  "AppState \<Rightarrow> string \<Rightarrow> string \<Rightarrow> string \<Rightarrow> Task outcome \<Rightarrow> event list" where
  "handleAddTask st colId uuid today res =
     (if \<not> truthy (selectedMember st) \<or> \<not> truthy (selectedBoard st) then []
      else
        ApiCall (createTask (newTask st colId uuid today)) #
        (case res of
           Resolved createdTask \<Rightarrow>
             set_columns_or_throw (append_task colId createdTask (columns st))
         | Rejected \<Rightarrow> [ConsoleError ''Failed to create task:'']))"

text \<open>
  The updater of \<^verbatim>\<open>handleEditTask\<close> walks over the keys of the copied object and
  replaces the task array of the column of each key, once per key. The assignment writes
  into the column objects, which the copy shares with the previous state; the embedding
  records the new value of \<^verbatim>\<open>columns\<close> only.
\<close>

definition replace_task :: "string \<Rightarrow> Task \<Rightarrow> Columns \<Rightarrow> Columns" where
  "replace_task ident updatedTask prev =
     map (\<lambda>(colId, col).
            (colId, col\<lparr>tasks := map (\<lambda>t. if task_id t = ident then updatedTask else t)
                                       (tasks col)\<rparr>))
         (spread prev)"

definition handleEditTask :: "AppState \<Rightarrow> Task \<Rightarrow> Task outcome \<Rightarrow> event list" where
  "handleEditTask st task res =
     ApiCall (updateTask task) #
     (case res of
        Resolved updatedTask \<Rightarrow> [SetColumns (replace_task (task_id task) updatedTask (columns st))]
      | Rejected \<Rightarrow> [ConsoleError ''Failed to update task:''])"

definition remove_task :: "string \<Rightarrow> Columns \<Rightarrow> Columns" where
  "remove_task taskId prev =
     map (\<lambda>(colId, col). (colId, col\<lparr>tasks := filter (\<lambda>t. task_id t \<noteq> taskId) (tasks col)\<rparr>))
         (spread prev)"

definition handleRemoveTask :: "AppState \<Rightarrow> string \<Rightarrow> unit outcome \<Rightarrow> event list" where
  "handleRemoveTask st taskId res =
     ApiCall (deleteTask taskId) #
     (case res of
        Resolved u \<Rightarrow> [SetColumns (remove_task taskId (columns st))]
      | Rejected \<Rightarrow> [ConsoleError ''Failed to remove task:''])"

definition handleCopyTask :: "AppState \<Rightarrow> Task \<Rightarrow> string \<Rightarrow> Task outcome \<Rightarrow> event list" where
  "handleCopyTask st task uuid res =
     (let copy = task\<lparr>task_id := uuid, task_title := task_title task @ '' (Copy)'',
                      comments := []\<rparr> in
      ApiCall (createTask copy) #
      (case res of
         Resolved createdTask \<Rightarrow>
           set_columns_or_throw (append_task (columnId task) createdTask (columns st))
       | Rejected \<Rightarrow> [ConsoleError ''Failed to copy task:'']))"

subsection \<open>Columns\<close>

text \<open>For a column that is not there, \<^verbatim>\<open>{ ...prev[columnId], title }\<close> is an object
  with a title only; the next render reads its \<^verbatim>\<open>tasks\<close> and throws.\<close>

definition rename_column :: "string \<Rightarrow> string \<Rightarrow> Columns \<Rightarrow> Columns option" where
  "rename_column colId title prev =
     (case get_prop prev colId of
        None \<Rightarrow> None
      | Some col \<Rightarrow> Some (set_prop colId (col\<lparr>column_title := title\<rparr>) (spread prev)))"

definition handleEditColumn :: "AppState \<Rightarrow> string \<Rightarrow> string \<Rightarrow> unit outcome \<Rightarrow> event list" where
  "handleEditColumn st colId title res =
     ApiCall (updateColumn colId title) #
     (case res of
        Resolved u \<Rightarrow> set_columns_or_throw (rename_column colId title (columns st))
      | Rejected \<Rightarrow> [ConsoleError ''Failed to update column:''])"

definition handleRemoveColumn :: "AppState \<Rightarrow> string \<Rightarrow> unit outcome \<Rightarrow> event list" where
  "handleRemoveColumn st colId res =
     ApiCall (deleteColumn colId) #
     (case res of
        Resolved u \<Rightarrow> [SetColumns (rest_without colId (columns st))]
      | Rejected \<Rightarrow> [ConsoleError ''Failed to delete column:''])"

definition handleAddColumn :: "AppState \<Rightarrow> string \<Rightarrow> Column outcome \<Rightarrow> event list" where
  "handleAddColumn st uuid res =
     (if \<not> truthy (selectedBoard st) then []
      else
        ApiCall (createColumn \<lparr>column_id = uuid, column_title = ''New Column'', tasks = [],
                               column_boardId = the (selectedBoard st)\<rparr>) #
        (case res of
           Resolved createdColumn \<Rightarrow>
             [SetColumns (set_prop uuid createdColumn (spread (columns st)))]
         | Rejected \<Rightarrow> [ConsoleError ''Failed to create column:'']))"

subsection \<open>Dragging columns\<close>

definition handleColumnDragStart :: "AppState \<Rightarrow> string \<Rightarrow> event list" where
  "handleColumnDragStart st colId = [SetDraggedColumn (Some colId)]"

text \<open>
  The updater of \<^verbatim>\<open>handleColumnDragOver\<close>. After a successful \<^verbatim>\<open>findIndex\<close> the
  first \<^verbatim>\<open>splice\<close> removes exactly one entry, so the empty case of the destructuring
  \<^verbatim>\<open>const [draggedEntry] = ...\<close> is never taken (lemma \<open>moved_entries\<close>).
\<close>

definition reorder_columns :: "string \<Rightarrow> string \<Rightarrow> Columns \<Rightarrow> Columns" where
  "reorder_columns dragged targetColumnId prev =
     (let entries = Object_entries prev;
          draggedIndex = findIndex (\<lambda>(key, col). key = dragged) entries;
          targetIndex = findIndex (\<lambda>(key, col). key = targetColumnId) entries
      in if draggedIndex = -1 \<or> targetIndex = -1 then prev
         else (case Array_splice draggedIndex 1 [] entries of
                 (draggedEntry # others, newEntries) \<Rightarrow>
                    Object_fromEntries (snd (Array_splice targetIndex 0 [draggedEntry] newEntries))
               | ([], newEntries) \<Rightarrow> prev))"

definition handleColumnDragOver :: "AppState \<Rightarrow> string \<Rightarrow> event list" where
  "handleColumnDragOver st targetColumnId =
     (if \<not> truthy (draggedColumn st) \<or> draggedColumn st = Some targetColumnId then []
      else [SetColumns (reorder_columns (the (draggedColumn st)) targetColumnId (columns st))])"

subsection \<open>Dragging tasks\<close>

definition handleTaskDragStart :: "AppState \<Rightarrow> string \<Rightarrow> string \<Rightarrow> int \<Rightarrow> event list" where
  "handleTaskDragStart st taskId srcId idx =
     [SetDraggedTask (Some \<lparr>dragged_id = taskId, sourceColumnId = srcId, currentIndex = idx\<rparr>)]"

definition handleTaskDragEnd :: "AppState \<Rightarrow> event list" where
  "handleTaskDragEnd st = [SetDraggedTask None, SetDraggedColumn None]"

text \<open>
  The updater of \<^verbatim>\<open>handleTaskDragOver\<close>. \<open>sourceColumn\<close> and \<open>targetColumn\<close> are the
  columns the handler read before the request; both assignments build their column from
  those two values, the second one after the first.
\<close>

definition move_task ::
  "string \<Rightarrow> string \<Rightarrow> Column \<Rightarrow> string \<Rightarrow> Column \<Rightarrow> int \<Rightarrow> Task \<Rightarrow> Columns \<Rightarrow> Columns" where
  "move_task draggedTaskId srcId sourceColumn targetColumnId targetColumn targetIndex
             updatedTask prev =
     (let newColumns = spread prev;
          newColumns' = set_prop srcId
             (sourceColumn\<lparr>tasks := filter (\<lambda>t. task_id t \<noteq> draggedTaskId) (tasks sourceColumn)\<rparr>)
             newColumns;
          targetTasks = snd (Array_splice targetIndex 0 [updatedTask] (tasks targetColumn))
      in set_prop targetColumnId (targetColumn\<lparr>tasks := targetTasks\<rparr>) newColumns')"

definition handleTaskDragOver :: "AppState \<Rightarrow> string \<Rightarrow> int \<Rightarrow> Task outcome \<Rightarrow> event list" where
  "handleTaskDragOver st targetColumnId targetIndex res =
     (case draggedTask st of
        None \<Rightarrow> []
      | Some dragged \<Rightarrow>
         (case get_prop (columns st) (sourceColumnId dragged) of
            None \<Rightarrow> []
          | Some sourceColumn \<Rightarrow>
             (case get_prop (columns st) targetColumnId of
                None \<Rightarrow> []
              | Some targetColumn \<Rightarrow>
                 (case find (\<lambda>t. task_id t = dragged_id dragged) (tasks sourceColumn) of
                    None \<Rightarrow> []
                  | Some taskToMove \<Rightarrow>
                     (let updatedTask = taskToMove\<lparr>columnId := targetColumnId\<rparr> in
                      ApiCall (updateTask updatedTask) #
                      (case res of
                         Resolved r \<Rightarrow>
                           [SetColumns
                              (move_task (dragged_id dragged) (sourceColumnId dragged)
                                 sourceColumn targetColumnId targetColumn targetIndex
                                 updatedTask (columns st))]
                       | Rejected \<Rightarrow> [ConsoleError ''Failed to move task:'']))))))"

subsection \<open>The selected board\<close>

text \<open>
  The board selector calls \<^verbatim>\<open>setSelectedBoard\<close> with the chosen id. The effect with the
  dependencies \<^verbatim>\<open>[selectedBoard, boards]\<close> copies the columns of the selected board into
  \<^verbatim>\<open>columns\<close>; React runs it after an update that changed one of the two: a different
  selected id, or any call of \<^verbatim>\<open>setBoards\<close> (every such call passes a new array).
\<close>

definition selectBoard :: "AppState \<Rightarrow> string \<Rightarrow> event list" where
  "selectBoard st boardId = [SetSelectedBoard (Some boardId)]"

definition selectedBoard_effect :: "AppState \<Rightarrow> event list" where
  "selectedBoard_effect st =
     (if truthy (selectedBoard st)
      then (case find (\<lambda>b. board_id b = the (selectedBoard st)) (boards st) of
              Some board \<Rightarrow> [SetColumns (board_columns board)]
            | None \<Rightarrow> [])
      else [])"

definition dispatch :: "AppState \<Rightarrow> event list \<Rightarrow> AppState" where
  "dispatch st evs =
     (let st' = run st evs in
      if selectedBoard st' \<noteq> selectedBoard st \<or> list_ex sets_boards evs
      then run st' (selectedBoard_effect st') else st')"

subsection \<open>User actions\<close>

datatype action =
    AddMember TeamMember "TeamMember outcome"
  | RemoveMember string "unit outcome"
  | AddBoard string "Board outcome"
  | EditBoard string string "unit outcome"
  | RemoveBoard string "unit outcome"
  | SelectBoard string
  | AddTask string string string "Task outcome"
  | EditTask Task "Task outcome"
  | RemoveTask string "unit outcome"
  | CopyTask Task string "Task outcome"
  | EditColumn string string "unit outcome"
  | RemoveColumn string "unit outcome"
  | AddColumn string "Column outcome"
  | ColumnDragStart string
  | ColumnDragOver string
  | TaskDragStart string string int
  | TaskDragEnd
  | TaskDragOver string int "Task outcome"

fun handle :: "AppState \<Rightarrow> action \<Rightarrow> event list" where
  "handle st (AddMember m res) = handleAddMember st m res"
| "handle st (RemoveMember ident res) = handleRemoveMember st ident res"
| "handle st (AddBoard uuid res) = handleAddBoard st uuid res"
| "handle st (EditBoard boardId title res) = handleEditBoard st boardId title res"
| "handle st (RemoveBoard boardId res) = handleRemoveBoard st boardId res"
| "handle st (SelectBoard boardId) = selectBoard st boardId"
| "handle st (AddTask colId uuid today res) = handleAddTask st colId uuid today res"
| "handle st (EditTask task res) = handleEditTask st task res"
| "handle st (RemoveTask taskId res) = handleRemoveTask st taskId res"
| "handle st (CopyTask task uuid res) = handleCopyTask st task uuid res"
| "handle st (EditColumn colId title res) = handleEditColumn st colId title res"
| "handle st (RemoveColumn colId res) = handleRemoveColumn st colId res"
| "handle st (AddColumn uuid res) = handleAddColumn st uuid res"
| "handle st (ColumnDragStart colId) = handleColumnDragStart st colId"
| "handle st (ColumnDragOver targetColumnId) = handleColumnDragOver st targetColumnId"
| "handle st (TaskDragStart taskId srcId idx) = handleTaskDragStart st taskId srcId idx"
| "handle st TaskDragEnd = handleTaskDragEnd st"
| "handle st (TaskDragOver targetColumnId targetIndex res) =
     handleTaskDragOver st targetColumnId targetIndex res"

definition step :: "AppState \<Rightarrow> action \<Rightarrow> AppState" where
  "step st a = dispatch st (handle st a)"

definition steps :: "AppState \<Rightarrow> action list \<Rightarrow> AppState" where
  "steps st as = foldl step st as"

text \<open>The create, update and delete actions, and whether their request was rejected.\<close>

fun is_mutation :: "action \<Rightarrow> bool" where
  "is_mutation (SelectBoard boardId) = False"
| "is_mutation (ColumnDragStart colId) = False"
| "is_mutation (ColumnDragOver targetColumnId) = False"
| "is_mutation (TaskDragStart taskId srcId idx) = False"
| "is_mutation TaskDragEnd = False"
| "is_mutation a = True"

fun rejected :: "action \<Rightarrow> bool" where
  "rejected (AddMember m res) = (res = Rejected)"
| "rejected (RemoveMember ident res) = (res = Rejected)"
| "rejected (AddBoard uuid res) = (res = Rejected)"
| "rejected (EditBoard boardId title res) = (res = Rejected)"
| "rejected (RemoveBoard boardId res) = (res = Rejected)"
| "rejected (AddTask colId uuid today res) = (res = Rejected)"
| "rejected (EditTask task res) = (res = Rejected)"
| "rejected (RemoveTask taskId res) = (res = Rejected)"
| "rejected (CopyTask task uuid res) = (res = Rejected)"
| "rejected (EditColumn colId title res) = (res = Rejected)"
| "rejected (RemoveColumn colId res) = (res = Rejected)"
| "rejected (AddColumn uuid res) = (res = Rejected)"
| "rejected (TaskDragOver targetColumnId targetIndex res) = (res = Rejected)"
| "rejected a = False"

fun is_column_drag :: "action \<Rightarrow> bool" where
  "is_column_drag (ColumnDragStart colId) = True"
| "is_column_drag (ColumnDragOver targetColumnId) = True"
| "is_column_drag TaskDragEnd = True"
| "is_column_drag a = False"

section \<open>The task details panel\<close>

text \<open>
  \<^verbatim>\<open>TaskDetails\<close> keeps a draft of the task it shows and a busy flag. Its \<^verbatim>\<open>onUpdate\<close>
  is \<^verbatim>\<open>handleEditTask\<close> of \<^verbatim>\<open>App\<close>, which logs its own failures and never rejects.
\<close>

record DetailsState =
  editedTask :: Task
  isSubmitting :: bool

fun apply_details_event :: "DetailsState \<Rightarrow> event \<Rightarrow> DetailsState" where
  "apply_details_event ds (SetEditedTask t) = ds\<lparr>editedTask := t\<rparr>"
| "apply_details_event ds (SetIsSubmitting b) = ds\<lparr>isSubmitting := b\<rparr>"
| "apply_details_event ds e = ds"

definition run_details :: "DetailsState \<Rightarrow> event list \<Rightarrow> DetailsState" where
  "run_details ds evs = foldl apply_details_event ds evs"

text \<open>\<^verbatim>\<open>handleUpdate\<close>: the merged task \<^verbatim>\<open>{ ...editedTask, ...updatedFields }\<close> is the
  draft with the given fields overwritten, here a function on the draft.\<close>

definition handleUpdate ::
  "DetailsState \<Rightarrow> AppState \<Rightarrow> (Task \<Rightarrow> Task) \<Rightarrow> Task outcome \<Rightarrow> event list" where
  "handleUpdate ds st updatedFields res =
     (if isSubmitting ds then []
      else (let updatedTask = updatedFields (editedTask ds) in
            [SetEditedTask updatedTask, SetIsSubmitting True] @
            handleEditTask st updatedTask res @
            [SetIsSubmitting False]))"

text \<open>\<^verbatim>\<open>handleAddComment\<close>: \<^verbatim>\<open>onUpdate(updatedTask)\<close> is not awaited, so the request of
  \<^verbatim>\<open>handleEditTask\<close> is issued, the \<^verbatim>\<open>finally\<close> block runs, and the rest of
  \<^verbatim>\<open>handleEditTask\<close> follows when its request settles.\<close>

definition handleAddComment ::
  "DetailsState \<Rightarrow> AppState \<Rightarrow> string \<Rightarrow> Attachment list \<Rightarrow> string \<Rightarrow> string \<Rightarrow>
   Comment outcome \<Rightarrow> Task outcome \<Rightarrow> event list" where
  "handleAddComment ds st content newAttachments uuid now res res' =
     (if isSubmitting ds then []
      else
        (let newComment = \<lparr>comment_id = uuid, comment_text = content,
                            authorId = memberId (editedTask ds), createdAt = now,
                            attachments = newAttachments\<rparr>
         in [SetIsSubmitting True, ApiCall (createComment newComment (task_id (editedTask ds)))] @
            (case res of
               Resolved savedComment \<Rightarrow>
                 (let updatedTask =
                        (editedTask ds)\<lparr>comments := comments (editedTask ds) @ [savedComment]\<rparr>;
                      onUpdate = handleEditTask st updatedTask res'
                  in [SetEditedTask updatedTask] @ take 1 onUpdate @
                     [SetIsSubmitting False] @ drop 1 onUpdate)
             | Rejected \<Rightarrow>
                 [ConsoleError ''Failed to add comment:'',
                  Alert ''Failed to add comment. Please try again.'',
                  SetIsSubmitting False])))"

section \<open>A concrete board\<close>

text \<open>
  The state the examples below start from: two members, two boards, the first board
  selected with the columns \<^verbatim>\<open>todo\<close>, \<^verbatim>\<open>doing\<close> and \<^verbatim>\<open>done\<close>, and the task
  \<^verbatim>\<open>T1\<close> of \<^verbatim>\<open>todo\<close> being dragged.
\<close>

definition example_task :: "string \<Rightarrow> string \<Rightarrow> Task" where
  "example_task ident colId =
     \<lparr>task_id = ident, task_title = ''A task'', description = ''Task description'',
      memberId = ''alice'', startDate = ''2024-05-01'', effort = 1, columnId = colId,
      priority = medium, requesterId = ''bob'', task_boardId = ''b1'', comments = []\<rparr>"

definition example_column :: "string \<Rightarrow> Task list \<Rightarrow> Column" where
  "example_column ident ts =
     \<lparr>column_id = ident, column_title = ident, tasks = ts, column_boardId = ''b1''\<rparr>"

definition example_member :: "string \<Rightarrow> TeamMember" where
  "example_member ident = \<lparr>member_id = ident, member_name = ident, color = ''#4ECDC4''\<rparr>"

definition example_columns :: Columns where
  "example_columns =
     [(''todo'', example_column ''todo'' [example_task ''T1'' ''todo'', example_task ''T2'' ''todo'']),
      (''doing'', example_column ''doing'' [example_task ''T3'' ''doing'', example_task ''T4'' ''doing'']),
      (''done'', example_column ''done'' [])]"

definition example_board :: "string \<Rightarrow> Columns \<Rightarrow> Board" where
  "example_board ident cols = \<lparr>board_id = ident, board_title = ident, board_columns = cols\<rparr>"

definition example_state :: AppState where
  "example_state =
     \<lparr>members = [example_member ''alice'', example_member ''bob''],
      boards = [example_board ''b1'' example_columns,
                example_board ''b2'' [(''backlog'', example_column ''backlog'' [])]],
      selectedBoard = Some ''b1'',
      columns = example_columns,
      selectedMember = Some ''alice'',
      draggedColumn = None,
      draggedTask = Some \<lparr>dragged_id = ''T1'', sourceColumnId = ''todo'', currentIndex = 0\<rparr>,
      selectedTask = None\<rparr>"

definition example_details :: DetailsState where
  "example_details = \<lparr>editedTask = example_task ''T1'' ''todo'', isSubmitting = False\<rparr>"

text \<open>The board as a reader sees it: every column key with the ids of its tasks, and
  with the \<open>columnId\<close> fields of its tasks.\<close>

definition task_ids :: "Columns \<Rightarrow> (string \<times> string list) list" where
  "task_ids cols = map (\<lambda>(colId, col). (colId, map task_id (tasks col))) cols"

definition task_columnIds :: "Columns \<Rightarrow> (string \<times> string list) list" where
  "task_columnIds cols = map (\<lambda>(colId, col). (colId, map columnId (tasks col))) cols"

text \<open>The concrete board while the column \<^verbatim>\<open>todo\<close>, or the column \<^verbatim>\<open>done\<close>, is
  being dragged.\<close>

definition dragging_todo :: AppState where
  "dragging_todo = example_state\<lparr>draggedColumn := Some ''todo''\<rparr>"

definition dragging_done :: AppState where
  "dragging_done = example_state\<lparr>draggedColumn := Some ''done''\<rparr>"

section \<open>Facts about the JavaScript operations\<close>


lemma findIndex_ge: "- 1 \<le> findIndex P xs"
  by (induction xs) (auto simp: Let_def)

lemma findIndex_none: "findIndex P xs = - 1 \<longleftrightarrow> \<not> (\<exists>x \<in> set xs. P x)"
proof (induction xs)
  case Nil
  then show ?case by simp
next
  case (Cons x xs)
  have "- 1 \<le> findIndex P xs" by (rule findIndex_ge)
  with Cons show ?case by (auto simp: Let_def)
qed

lemma findIndex_nth:
  "i < length xs \<Longrightarrow> P (xs ! i) \<Longrightarrow> \<forall>j < i. \<not> P (xs ! j) \<Longrightarrow> findIndex P xs = int i"
proof (induction xs arbitrary: i)
  case Nil
  then show ?case by simp
next
  case (Cons x xs)
  show ?case
  proof (cases i)
    case 0
    with Cons.prems show ?thesis by simp
  next
    case (Suc n)
    with Cons.prems have n: "n < length xs" "P (xs ! n)" by simp_all
    from Cons.prems Suc have nx: "\<not> P x" by auto
    from Cons.prems Suc have "\<forall>j < n. \<not> P (xs ! j)" by auto
    with Cons.IH n have "findIndex P xs = int n" by blast
    with nx Suc show ?thesis by (simp add: Let_def)
  qed
qed

lemma findIndex_key:
  assumes "distinct (map fst es)" "i < length es" "fst (es ! i) = k"
  shows "findIndex (\<lambda>(k', c). k' = k) es = int i"
proof (rule findIndex_nth)
  show "i < length es" by fact
  show "case es ! i of (k', c) \<Rightarrow> k' = k" using assms(3) by (simp add: case_prod_beta)
  show "\<forall>j<i. \<not> (case es ! j of (k', c) \<Rightarrow> k' = k)"
  proof (intro allI impI)
    fix j assume j: "j < i"
    have "(map fst es ! j = map fst es ! i) = (j = i)"
      using assms(1,2) j by (intro nth_eq_iff_index_eq) simp_all
    then have "fst (es ! j) \<noteq> fst (es ! i)" using assms(2) j by simp
    with assms(3) show "\<not> (case es ! j of (k', c) \<Rightarrow> k' = k)"
      by (simp add: case_prod_beta)
  qed
qed

lemma take_one_drop: "i < length xs \<Longrightarrow> take (Suc 0) (drop i xs) = [xs ! i]"
  by (simp add: take_Suc_conv_app_nth)

lemma splice_remove: "i < length xs \<Longrightarrow> Array_splice (int i) 1 [] xs = ([xs ! i], take i xs @ drop (Suc i) xs)"
proof -
  assume i: "i < length xs"
  then have "nat (min (max 1 0) (int (length xs) - int i)) = Suc 0" by simp
  then show ?thesis using i by (simp add: Array_splice_def Let_def take_one_drop)
qed

lemma splice_insert: "i \<le> length xs \<Longrightarrow> Array_splice (int i) 0 [x] xs = ([], take i xs @ x # drop i xs)"
  by (simp add: Array_splice_def Let_def)


lemma mset_take_drop:
  "mset (take q (drop p xs)) + (mset (take p xs) + (mset items + mset (drop (p + q) xs))) =
   mset xs + mset items"
proof -
  have a: "mset xs = mset (take p xs) + mset (drop p xs)"
    by (metis append_take_drop_id mset_append)
  have b: "mset (drop p xs) = mset (take q (drop p xs)) + mset (drop q (drop p xs))"
    by (metis append_take_drop_id mset_append)
  have c: "drop q (drop p xs) = drop (p + q) xs" by (simp add: add.commute)
  show ?thesis unfolding a[unfolded b c] by (simp add: ac_simps)
qed

lemma mset_splice:
  "mset (fst (Array_splice s d items xs)) + mset (snd (Array_splice s d items xs)) = mset xs + mset items"
  unfolding Array_splice_def Let_def fst_conv snd_conv mset_append by (rule mset_take_drop)

lemma map_of_replace:
  "map_of (map (\<lambda>(k', v'). if k' = k then (k', v) else (k', v')) obj) x =
     (if x = k then (case map_of obj k of None \<Rightarrow> None | Some v' \<Rightarrow> Some v) else map_of obj x)"
  by (induction obj) auto

lemma map_of_insert_index:
  "map_of (insert_index k v obj) x = (if x = k then Some v else map_of obj x)"
  by (induction obj) auto

lemma map_of_set_prop: "map_of (set_prop k v obj) x = (if x = k then Some v else map_of obj x)"
proof (cases "k \<in> set (map fst obj)")
  case True
  then obtain v' where "map_of obj k = Some v'"
    by (metis map_of_eq_None_iff not_None_eq set_map)
  with True show ?thesis by (simp add: set_prop_def map_of_replace)
next
  case False
  then have "map_of obj k = None" by (simp add: map_of_eq_None_iff)
  with False show ?thesis
    by (auto simp: set_prop_def map_of_insert_index map_add_def split: option.splits)
qed

lemma mset_insert_index: "mset (insert_index k v obj) = add_mset (k, v) (mset obj)"
  by (induction obj) auto

lemma fst_replace: "fst \<circ> (\<lambda>(k', v'). if k' = k then (k', v) else (k', v')) = fst"
  by (auto simp: fun_eq_iff)

lemma keys_replace:
  "map fst (map (\<lambda>(k', v'). if k' = k then (k', v) else (k', v')) obj) = map fst obj"
  unfolding map_map fst_replace ..

lemma distinct_set_prop: "distinct (map fst obj) \<Longrightarrow> distinct (map fst (set_prop k v obj))"
proof -
  assume d: "distinct (map fst obj)"
  show ?thesis
  proof (cases "k \<in> set (map fst obj)")
    case True
    with d show ?thesis by (simp only: set_prop_def keys_replace if_True)
  next
    case False
    have "mset (set_prop k v obj) = mset ((k, v) # obj)"
      using False by (simp add: set_prop_def mset_insert_index)
    then have "mset (map fst (set_prop k v obj)) = mset (map fst ((k, v) # obj))"
      by (metis mset_map)
    moreover have "distinct (map fst ((k, v) # obj))" using d False by simp
    ultimately show ?thesis by (metis mset_eq_imp_distinct_iff)
  qed
qed

lemma mset_set_prop_new:
  "k \<notin> set (map fst obj) \<Longrightarrow> mset (set_prop k v obj) = add_mset (k, v) (mset obj)"
  by (simp add: set_prop_def mset_insert_index)


lemma fromEntries_snoc:
  "Object_fromEntries (es @ [(k, v)]) = set_prop k v (Object_fromEntries es)"
  by (simp add: Object_fromEntries_def)

lemma fromEntries_Nil: "Object_fromEntries [] = []"
  by (simp add: Object_fromEntries_def)

lemma fromEntries_props:
  "distinct (map fst es) \<Longrightarrow>
     mset (Object_fromEntries es) = mset es \<and> distinct (map fst (Object_fromEntries es))"
proof (induction es rule: rev_induct)
  case Nil
  then show ?case by (simp add: fromEntries_Nil)
next
  case (snoc e es)
  obtain k v where e: "e = (k, v)" by (cases e)
  from snoc.prems e have d: "distinct (map fst es)" and nk: "k \<notin> set (map fst es)" by auto
  from snoc.IH d have ih: "mset (Object_fromEntries es) = mset es"
    "distinct (map fst (Object_fromEntries es))" by simp_all
  from ih(1) have "set (Object_fromEntries es) = set es" by (metis set_mset_mset)
  with nk have nk': "k \<notin> set (map fst (Object_fromEntries es))" by simp
  show ?case
    using ih nk' by (simp add: e fromEntries_snoc mset_set_prop_new distinct_set_prop)
qed

lemma fromEntries_ident:
  "distinct (map fst es) \<Longrightarrow> no_index_keys es \<Longrightarrow> Object_fromEntries es = es"
proof (induction es rule: rev_induct)
  case Nil
  then show ?case by (simp add: fromEntries_Nil)
next
  case (snoc e es)
  obtain k v where e: "e = (k, v)" by (cases e)
  from snoc e have "Object_fromEntries es = es" by (simp add: no_index_keys_def)
  moreover from snoc.prems e have "k \<notin> set (map fst es)" "\<not> array_index k"
    by (auto simp: no_index_keys_def)
  ultimately show ?case by (simp add: e fromEntries_snoc set_prop_def)
qed

lemma map_of_fromEntries:
  assumes "distinct (map fst es)"
  shows "map_of (Object_fromEntries es) = map_of es"
proof -
  from fromEntries_props[OF assms]
  have m: "mset (Object_fromEntries es) = mset es"
    and d: "distinct (map fst (Object_fromEntries es))" by simp_all
  from m have "set (Object_fromEntries es) = set es" by (metis set_mset_mset)
  with d assms show ?thesis by (simp add: map_of_inject_set)
qed

lemma get_prop_spread: "distinct_keys obj \<Longrightarrow> get_prop (spread obj) k = get_prop obj k"
  by (simp add: get_prop_def spread_def Object_entries_def distinct_keys_def map_of_fromEntries)

lemma get_prop_set_prop:
  "get_prop (set_prop k v obj) k' = (if k' = k then Some v else get_prop obj k')"
  by (simp add: get_prop_def map_of_set_prop)

section \<open>Facts about traces\<close>

lemma run_Nil: "run st [] = st"
  by (simp add: run_def)

lemma run_Cons: "run st (e # evs) = run (apply_event st e) evs"
  by (simp add: run_def)

lemma dispatch_plain:
  "selectedBoard (run st evs) = selectedBoard st \<Longrightarrow> \<not> list_ex sets_boards evs \<Longrightarrow>
   dispatch st evs = run st evs"
  by (simp add: dispatch_def Let_def)

section \<open>Facts about the concrete board\<close>

lemma example_task_simps:
  "task_id (example_task ident colId) = ident"
  "columnId (example_task ident colId) = colId"
  "(example_task ident colId)\<lparr>columnId := colId'\<rparr> = example_task ident colId'"
  by (simp_all add: example_task_def)

lemma example_column_simps:
  "tasks (example_column ident ts) = ts"
  "column_id (example_column ident ts) = ident"
  "(example_column ident ts)\<lparr>tasks := ts'\<rparr> = example_column ident ts'"
  by (simp_all add: example_column_def)

lemma example_state_simps:
  "columns example_state = example_columns"
  "draggedTask example_state =
     Some \<lparr>dragged_id = ''T1'', sourceColumnId = ''todo'', currentIndex = 0\<rparr>"
  "draggedColumn example_state = None"
  "selectedBoard example_state = Some ''b1''"
  "selectedMember example_state = Some ''alice''"
  "members example_state = [example_member ''alice'', example_member ''bob'']"
  by (simp_all add: example_state_def)

lemma not_array_index_letter [simp]: "\<not> is_digit c \<Longrightarrow> \<not> array_index (c # s)"
  by (simp add: array_index_def)

lemma is_digit_letters [simp]:
  "\<not> is_digit CHR ''t''" "\<not> is_digit CHR ''d''" "\<not> is_digit CHR ''b''"
  by (simp_all add: is_digit_def)

lemma example_columns_keys:
  "distinct_keys example_columns" "no_index_keys example_columns"
  by (simp_all add: example_columns_def distinct_keys_def no_index_keys_def)

lemma spread_no_index:
  "distinct_keys obj \<Longrightarrow> no_index_keys obj \<Longrightarrow> spread obj = obj"
  by (simp add: spread_def Object_entries_def distinct_keys_def fromEntries_ident)

lemma replace_absent:
  "k \<notin> fst ` set obj \<Longrightarrow>
   map (\<lambda>(k', v'). if k' = k then (k', v) else (k', v')) obj = obj"
  by (induction obj) auto

lemma set_prop_Cons:
  "set_prop k v ((k', v') # obj) =
     (if k = k' then (k', v) # (if k \<in> set (map fst obj) then set_prop k v obj else obj)
      else if k \<in> set (map fst obj) then (k', v') # set_prop k v obj
      else if array_index k then insert_index k v ((k', v') # obj)
      else (k', v') # obj @ [(k, v)])"
  by (auto simp: set_prop_def replace_absent)

lemma get_prop_Cons:
  "get_prop ((k', v') # obj) k = (if k = k' then Some v' else get_prop obj k)"
  by (auto simp: get_prop_def)

lemma get_prop_Nil: "get_prop [] k = None"
  by (simp add: get_prop_def)

lemma example_columns_props:
  "get_prop example_columns ''todo'' =
     Some (example_column ''todo'' [example_task ''T1'' ''todo'', example_task ''T2'' ''todo''])"
  "get_prop example_columns ''doing'' =
     Some (example_column ''doing'' [example_task ''T3'' ''doing'', example_task ''T4'' ''doing''])"
  by (simp_all add: example_columns_def get_prop_Cons)

section \<open>Deleting a member\<close>

text \<open>
  Claim C10. After a member delete whose request resolved, the member list is the old
  list without the members of that id. If the deleted member was not the selected one,
  \<open>selectedMember\<close> is unchanged. If it was, the new \<open>selectedMember\<close> is the id of
  the first element of the list before the deletion when that list had two or more
  members, which is the deleted id itself whenever the deleted member was first, and null
  when the list had one member or none.
\<close>

theorem handleRemoveMember_selected:
  "members (step st (RemoveMember ident (Resolved u))) =
     filter (\<lambda>m. member_id m \<noteq> ident) (members st)
   \<and> ident \<notin> member_id ` set (members (step st (RemoveMember ident (Resolved u))))
   \<and> (selectedMember st \<noteq> Some ident \<longrightarrow>
        selectedMember (step st (RemoveMember ident (Resolved u))) = selectedMember st)
   \<and> (selectedMember st = Some ident \<and> 2 \<le> length (members st) \<longrightarrow>
        selectedMember (step st (RemoveMember ident (Resolved u))) =
          Some (member_id (hd (members st))))
   \<and> (selectedMember st = Some ident \<and> 2 \<le> length (members st)
        \<and> member_id (hd (members st)) = ident \<longrightarrow>
        selectedMember (step st (RemoveMember ident (Resolved u))) = Some ident)
   \<and> (selectedMember st = Some ident \<and> length (members st) \<le> 1 \<longrightarrow>
        selectedMember (step st (RemoveMember ident (Resolved u))) = None)"
proof -
  let ?evs = "handle st (RemoveMember ident (Resolved u))"
  have sb: "selectedBoard (run st ?evs) = selectedBoard st"
    by (simp add: handleRemoveMember_def run_Cons run_Nil)
  have nb: "\<not> list_ex sets_boards ?evs"
    by (simp add: handleRemoveMember_def)
  have st: "step st (RemoveMember ident (Resolved u)) = run st ?evs"
    unfolding step_def by (rule dispatch_plain[OF sb nb])
  have hd0: "members st \<noteq> [] \<Longrightarrow> members st ! 0 = hd (members st)"
    by (simp add: hd_conv_nth)
  have ne: "2 \<le> length (members st) \<Longrightarrow> members st \<noteq> []" by auto
  show ?thesis
    unfolding st
    by (auto simp: handleRemoveMember_def run_Cons run_Nil hd0 ne)
qed

theorem handleRemoveMember_selected_witness:
  "selectedMember example_state = Some ''alice'' \<and> 2 \<le> length (members example_state)
   \<and> member_id (hd (members example_state)) = ''alice''
   \<and> selectedMember (step example_state (RemoveMember ''alice'' (Resolved ()))) = Some ''alice''
   \<and> selectedMember example_state \<noteq> Some ''bob''
   \<and> selectedMember (step example_state (RemoveMember ''bob'' (Resolved ()))) = Some ''alice''
   \<and> length (members (example_state\<lparr>members := [example_member ''alice'']\<rparr>)) \<le> 1
   \<and> selectedMember (step (example_state\<lparr>members := [example_member ''alice'']\<rparr>)
                          (RemoveMember ''alice'' (Resolved ()))) = None"
  using handleRemoveMember_selected [of example_state "''alice''" "()"]
        handleRemoveMember_selected [of example_state "''bob''" "()"]
        handleRemoveMember_selected [of "example_state\<lparr>members := [example_member ''alice'']\<rparr>"
                                       "''alice''" "()"]
  by (simp add: example_state_def example_member_def)

section \<open>Deleting a board\<close>

lemma filter_key_le_one:
  "distinct (map f xs) \<Longrightarrow> length (filter (\<lambda>x. f x = a) xs) \<le> 1"
  by (induction xs) (auto simp: filter_empty_conv image_iff)

lemma filter_others_nonempty:
  assumes "distinct (map f xs)" "2 \<le> length xs"
  shows "filter (\<lambda>x. f x \<noteq> a) xs \<noteq> []"
proof
  assume e: "filter (\<lambda>x. f x \<noteq> a) xs = []"
  have "length (filter (\<lambda>x. f x = a) xs) + length (filter (\<lambda>x. \<not> f x = a) xs) = length xs"
    by (rule sum_length_filter_compl)
  with e have "length (filter (\<lambda>x. f x = a) xs) = length xs" by simp
  with filter_key_le_one[OF assms(1), of a] assms(2) show False by simp
qed

lemma effect_after_select_first:
  assumes "boards st = b # bs" "selectedBoard st = Some (board_id b)" "columns st = board_columns b"
  shows "run st (selectedBoard_effect st) = st"
  using assms by (simp add: selectedBoard_effect_def run_Cons run_Nil)

lemma run_effect_frame:
  "selectedBoard (run st (selectedBoard_effect st)) = selectedBoard st
   \<and> boards (run st (selectedBoard_effect st)) = boards st
   \<and> members (run st (selectedBoard_effect st)) = members st
   \<and> selectedMember (run st (selectedBoard_effect st)) = selectedMember st"
  by (simp add: selectedBoard_effect_def run_Cons run_Nil split: option.splits)

text \<open>
  Claim C7. When one board or none exists, the board delete is refused on the client:
  the handler raises the alert, issues no request, and the state (the board list with
  it) is unchanged. When two or more boards exist the handler issues the delete request
  first; once it has resolved, the boards of the deleted id are gone from the list, and
  if the deleted board was the selected one, the first board of the remaining list, a
  board with another id, is selected and its columns are shown. The ids of the boards
  are pairwise distinct, as the data model has it.
\<close>

theorem handleRemoveBoard_last_board:
  "(length (boards st) \<le> 1 \<longrightarrow>
      handle st (RemoveBoard boardId res) = [Alert ''Cannot delete the last board'']
      \<and> \<not> list_ex is_request (handle st (RemoveBoard boardId res))
      \<and> step st (RemoveBoard boardId res) = st)
   \<and> (2 \<le> length (boards st) \<longrightarrow>
      hd (handle st (RemoveBoard boardId res)) = ApiCall (deleteBoard boardId))
   \<and> (2 \<le> length (boards st) \<and> distinct (map board_id (boards st)) \<longrightarrow>
      boards (step st (RemoveBoard boardId (Resolved u))) =
        filter (\<lambda>b. board_id b \<noteq> boardId) (boards st)
      \<and> boardId \<notin> board_id ` set (boards (step st (RemoveBoard boardId (Resolved u))))
      \<and> (selectedBoard st \<noteq> Some boardId \<longrightarrow>
            selectedBoard (step st (RemoveBoard boardId (Resolved u))) = selectedBoard st)
      \<and> (selectedBoard st = Some boardId \<longrightarrow>
            filter (\<lambda>b. board_id b \<noteq> boardId) (boards st) \<noteq> []
            \<and> selectedBoard (step st (RemoveBoard boardId (Resolved u))) =
                Some (board_id (hd (filter (\<lambda>b. board_id b \<noteq> boardId) (boards st))))
            \<and> board_id (hd (filter (\<lambda>b. board_id b \<noteq> boardId) (boards st))) \<noteq> boardId
            \<and> hd (filter (\<lambda>b. board_id b \<noteq> boardId) (boards st)) \<in> set (boards st)
            \<and> columns (step st (RemoveBoard boardId (Resolved u))) =
                board_columns (hd (filter (\<lambda>b. board_id b \<noteq> boardId) (boards st)))))"
proof (intro conjI impI)
  assume "length (boards st) \<le> 1"
  then show "handle st (RemoveBoard boardId res) = [Alert ''Cannot delete the last board'']"
    and "\<not> list_ex is_request (handle st (RemoveBoard boardId res))"
    and "step st (RemoveBoard boardId res) = st"
    by (simp_all add: handleRemoveBoard_def step_def dispatch_def run_Cons run_Nil)
next
  assume "2 \<le> length (boards st)"
  then show "hd (handle st (RemoveBoard boardId res)) = ApiCall (deleteBoard boardId)"
    by (simp add: handleRemoveBoard_def)
next
  assume a: "2 \<le> length (boards st) \<and> distinct (map board_id (boards st))"
  let ?nb = "filter (\<lambda>b. board_id b \<noteq> boardId) (boards st)"
  let ?a = "RemoveBoard boardId (Resolved u)"
  let ?st' = "run st (handle st ?a)"
  from a have g: "\<not> length (boards st) \<le> 1" by simp
  from a have ne: "?nb \<noteq> []" by (simp add: filter_others_nonempty)
  then obtain b bs where nb: "?nb = b # bs" by (cases ?nb) auto
  have h: "handle st ?a =
      ApiCall (deleteBoard boardId) # SetBoards ?nb #
      (if selectedBoard st = Some boardId
       then [SetSelectedBoard (Some (board_id b)), SetColumns (board_columns b)] else [])"
    using g nb by (simp add: handleRemoveBoard_def Let_def)
  have eff: "step st ?a = run ?st' (selectedBoard_effect ?st')"
    unfolding step_def dispatch_def Let_def h by simp
  have b': "boards ?st' = ?nb"
    unfolding h by (simp add: run_Cons run_Nil)
  from run_effect_frame[of ?st'] eff
  have fr: "boards (step st ?a) = boards ?st'" "selectedBoard (step st ?a) = selectedBoard ?st'"
    by simp_all
  show "boards (step st ?a) = ?nb" using fr b' by simp
  then show "boardId \<notin> board_id ` set (boards (step st ?a))" by auto
  {
    assume "selectedBoard st \<noteq> Some boardId"
    then have "selectedBoard ?st' = selectedBoard st"
      unfolding h by (simp add: run_Cons run_Nil)
    with fr show "selectedBoard (step st ?a) = selectedBoard st" by simp
  }
  {
    assume s: "selectedBoard st = Some boardId"
    show "?nb \<noteq> []" by (rule ne)
    have sel: "selectedBoard ?st' = Some (board_id b)" and col: "columns ?st' = board_columns b"
      unfolding h using s by (simp_all add: run_Cons run_Nil)
    from sel fr nb
    show "selectedBoard (step st ?a) = Some (board_id (hd ?nb))" by simp
    have "hd ?nb \<in> set ?nb" using ne by (rule hd_in_set)
    then show "board_id (hd ?nb) \<noteq> boardId" and "hd ?nb \<in> set (boards st)" by auto
    have "run ?st' (selectedBoard_effect ?st') = ?st'"
      using b' nb sel col by (intro effect_after_select_first) simp_all
    with eff col nb show "columns (step st ?a) = board_columns (hd ?nb)" by simp
  }
qed

theorem handleRemoveBoard_last_board_witness:
  "length (boards (example_state\<lparr>boards := [example_board ''b1'' example_columns]\<rparr>)) \<le> 1
   \<and> step (example_state\<lparr>boards := [example_board ''b1'' example_columns]\<rparr>)
           (RemoveBoard ''b1'' (Resolved ())) =
       example_state\<lparr>boards := [example_board ''b1'' example_columns]\<rparr>
   \<and> 2 \<le> length (boards example_state) \<and> distinct (map board_id (boards example_state))
   \<and> selectedBoard example_state = Some ''b1''
   \<and> hd (handle example_state (RemoveBoard ''b1'' (Resolved ()))) = ApiCall (deleteBoard ''b1'')
   \<and> map board_id (boards (step example_state (RemoveBoard ''b1'' (Resolved ())))) = [''b2'']
   \<and> selectedBoard (step example_state (RemoveBoard ''b1'' (Resolved ()))) = Some ''b2''
   \<and> map fst (columns (step example_state (RemoveBoard ''b1'' (Resolved ())))) = [''backlog'']
   \<and> selectedBoard example_state \<noteq> Some ''b2''
   \<and> selectedBoard (step example_state (RemoveBoard ''b2'' (Resolved ()))) = Some ''b1''"
  using handleRemoveBoard_last_board
          [of "example_state\<lparr>boards := [example_board ''b1'' example_columns]\<rparr>"
              "''b1''" "Resolved ()" "()"]
        handleRemoveBoard_last_board [of example_state "''b1''" "Resolved ()" "()"]
        handleRemoveBoard_last_board [of example_state "''b2''" "Resolved ()" "()"]
  by (simp add: example_state_def example_board_def)

section \<open>Switching the selected board\<close>

text \<open>
  Claim C8. Switching the selected board, that is selecting a board id other than the one
  selected, replaces \<open>columns\<close> with the columns of the board of that id (the first
  one in the list) when the board list has one, and leaves the columns as they are when
  no board has the id; in all cases \<open>selectedMember\<close>, the members and the boards are
  unchanged and the id becomes the selected one. Board ids are never empty: they are the
  UUIDs of \<^verbatim>\<open>handleAddBoard\<close> or the id \<^verbatim>\<open>default\<close> of the server's first board.
\<close>

theorem selectBoard_columns:
  "(boardId \<noteq> [] \<and> selectedBoard st \<noteq> Some boardId
      \<and> find (\<lambda>b. board_id b = boardId) (boards st) = Some board \<longrightarrow>
      columns (step st (SelectBoard boardId)) = board_columns board)
   \<and> (boardId \<notin> board_id ` set (boards st) \<longrightarrow>
      columns (step st (SelectBoard boardId)) = columns st)
   \<and> selectedMember (step st (SelectBoard boardId)) = selectedMember st
   \<and> members (step st (SelectBoard boardId)) = members st
   \<and> boards (step st (SelectBoard boardId)) = boards st
   \<and> selectedBoard (step st (SelectBoard boardId)) = Some boardId"
proof -
  have none: "boardId \<notin> board_id ` set (boards st) \<Longrightarrow>
      find (\<lambda>b. board_id b = boardId) (boards st) = None"
    by (auto simp: find_None_iff)
  show ?thesis
    by (auto simp: step_def dispatch_def Let_def selectBoard_def selectedBoard_effect_def
        truthy_def run_Cons run_Nil none split: option.splits)
qed

theorem selectBoard_columns_witness:
  "''b2'' \<noteq> [] \<and> selectedBoard example_state \<noteq> Some ''b2''
   \<and> find (\<lambda>b. board_id b = ''b2'') (boards example_state)
       = Some (example_board ''b2'' [(''backlog'', example_column ''backlog'' [])])
   \<and> columns (step example_state (SelectBoard ''b2'')) = [(''backlog'', example_column ''backlog'' [])]
   \<and> ''b9'' \<notin> board_id ` set (boards example_state)
   \<and> columns (step example_state (SelectBoard ''b9'')) = columns example_state
   \<and> selectedMember (step example_state (SelectBoard ''b2'')) = Some ''alice''"
  using selectBoard_columns [of "''b2''" example_state
          "example_board ''b2'' [(''backlog'', example_column ''backlog'' [])]"]
        selectBoard_columns [of "''b9''" example_state undefined]
  by (simp add: example_state_def example_board_def)

section \<open>Dragging a task over a column\<close>

lemma handleTaskDragOver_resolved:
  assumes "draggedTask st = Some d"
    and "get_prop (columns st) (sourceColumnId d) = Some sc"
    and "get_prop (columns st) tgt = Some tc"
    and "find (\<lambda>t. task_id t = dragged_id d) (tasks sc) = Some t"
  shows "handle st (TaskDragOver tgt i (Resolved r)) =
     [ApiCall (updateTask (t\<lparr>columnId := tgt\<rparr>)),
      SetColumns (move_task (dragged_id d) (sourceColumnId d) sc tgt tc i
                    (t\<lparr>columnId := tgt\<rparr>) (columns st))]"
  using assms by (simp add: handleTaskDragOver_def Let_def)

lemma step_TaskDragOver_columns:
  assumes "draggedTask st = Some d"
    and "get_prop (columns st) (sourceColumnId d) = Some sc"
    and "get_prop (columns st) tgt = Some tc"
    and "find (\<lambda>t. task_id t = dragged_id d) (tasks sc) = Some t"
  shows "columns (step st (TaskDragOver tgt i (Resolved r))) =
     move_task (dragged_id d) (sourceColumnId d) sc tgt tc i (t\<lparr>columnId := tgt\<rparr>) (columns st)"
  unfolding step_def handleTaskDragOver_resolved[OF assms]
  by (simp add: dispatch_def Let_def run_Cons run_Nil)

lemma get_prop_move_task_target:
  "get_prop (move_task ident src sc tgt tc i u prev) tgt =
     Some (tc\<lparr>tasks := snd (Array_splice i 0 [u] (tasks tc))\<rparr>)"
  by (simp add: move_task_def Let_def get_prop_set_prop)

lemma get_prop_move_task:
  "distinct_keys prev \<Longrightarrow>
   get_prop (move_task ident src sc tgt tc i u prev) k =
     (if k = tgt then Some (tc\<lparr>tasks := snd (Array_splice i 0 [u] (tasks tc))\<rparr>)
      else if k = src then Some (sc\<lparr>tasks := filter (\<lambda>t. task_id t \<noteq> ident) (tasks sc)\<rparr>)
      else get_prop prev k)"
  by (simp add: move_task_def Let_def get_prop_set_prop get_prop_spread)

lemma splice_insert_cases:
  "(int (length xs) \<le> i \<longrightarrow> snd (Array_splice i 0 [x] xs) = xs @ [x])
   \<and> (i = 0 \<or> i \<le> - int (length xs) \<longrightarrow> snd (Array_splice i 0 [x] xs) = x # xs)
   \<and> (i < 0 \<longrightarrow> snd (Array_splice i 0 [x] xs) =
         take (nat (int (length xs) + i)) xs @ x # drop (nat (int (length xs) + i)) xs)
   \<and> (0 \<le> i \<and> i \<le> int (length xs) \<longrightarrow> snd (Array_splice i 0 [x] xs) =
         take (nat i) xs @ x # drop (nat i) xs)"
  by (auto simp: Array_splice_def Let_def max_def min_def)

text \<open>
  Claim C4, as stated, says that a negative target index inserts the task at the front.
  \<^verbatim>\<open>splice\<close> counts a negative start from the end of the array: dragging \<^verbatim>\<open>T1\<close>
  over \<^verbatim>\<open>doing\<close>, which holds \<^verbatim>\<open>T3\<close> and \<^verbatim>\<open>T4\<close>, with the index \<open>-1\<close> puts it
  between the two.
\<close>

theorem handleTaskDragOver_negative_index_counterexample:
  "task_ids (columns example_state) =
     [(''todo'', [''T1'', ''T2'']), (''doing'', [''T3'', ''T4'']), (''done'', [])]
   \<and> task_ids (columns (step example_state
        (TaskDragOver ''doing'' (- 1) (Resolved (example_task ''T1'' ''doing''))))) =
     [(''todo'', [''T2'']), (''doing'', [''T3'', ''T1'', ''T4'']), (''done'', [])]"
proof -
  have f: "find (\<lambda>t. task_id t = ''T1'') [example_task ''T1'' ''todo'', example_task ''T2'' ''todo'']
      = Some (example_task ''T1'' ''todo'')"
    by (simp add: example_task_simps)
  have "columns (step example_state
        (TaskDragOver ''doing'' (- 1) (Resolved (example_task ''T1'' ''doing'')))) =
     move_task ''T1'' ''todo''
       (example_column ''todo'' [example_task ''T1'' ''todo'', example_task ''T2'' ''todo''])
       ''doing''
       (example_column ''doing'' [example_task ''T3'' ''doing'', example_task ''T4'' ''doing''])
       (- 1) (example_task ''T1'' ''doing'') example_columns"
    using step_TaskDragOver_columns [of example_state
        "\<lparr>dragged_id = ''T1'', sourceColumnId = ''todo'', currentIndex = 0\<rparr>"
        "example_column ''todo'' [example_task ''T1'' ''todo'', example_task ''T2'' ''todo'']"
        "''doing''"
        "example_column ''doing'' [example_task ''T3'' ''doing'', example_task ''T4'' ''doing'']"
        "example_task ''T1'' ''todo''" "- 1" "example_task ''T1'' ''doing''"]
    by (simp add: example_state_simps example_columns_props example_column_simps
        example_task_simps f)
  also have "\<dots> =
     [(''todo'', example_column ''todo'' [example_task ''T2'' ''todo'']),
      (''doing'', example_column ''doing''
         [example_task ''T3'' ''doing'', example_task ''T1'' ''doing'', example_task ''T4'' ''doing'']),
      (''done'', example_column ''done'' [])]"
    by (simp add: move_task_def Let_def spread_no_index example_columns_keys
        example_column_simps example_task_simps Array_splice_def)
       (simp add: example_columns_def set_prop_Cons)
  finally show ?thesis
    by (simp add: task_ids_def example_state_simps example_column_simps example_task_simps)
       (simp add: example_columns_def example_column_simps example_task_simps)
qed

text \<open>
  Claim C4, amended. When a task is being dragged, its source column and the target
  column exist, the source column holds the task and the request resolves, the handler
  issues the request and sets the columns, with no error and no exception whatever the
  target index is. The target column then holds its former sequence with the updated
  task inserted: at the end when the index is the length or more, at the front when the
  index is zero or at most minus the length, and for any other negative index \<open>i\<close> at
  position length + \<open>i\<close>, counted from the end.
\<close>

theorem handleTaskDragOver_target_index:
  assumes "draggedTask st = Some d"
    and "get_prop (columns st) (sourceColumnId d) = Some sc"
    and "get_prop (columns st) tgt = Some tc"
    and "find (\<lambda>t. task_id t = dragged_id d) (tasks sc) = Some t"
  shows "\<not> list_ex is_error_report (handle st (TaskDragOver tgt i (Resolved r)))
   \<and> UncaughtTypeError \<notin> set (handle st (TaskDragOver tgt i (Resolved r)))
   \<and> get_prop (columns (step st (TaskDragOver tgt i (Resolved r)))) tgt =
       Some (tc\<lparr>tasks := snd (Array_splice i 0 [t\<lparr>columnId := tgt\<rparr>] (tasks tc))\<rparr>)
   \<and> (int (length (tasks tc)) \<le> i \<longrightarrow>
        snd (Array_splice i 0 [t\<lparr>columnId := tgt\<rparr>] (tasks tc)) =
          tasks tc @ [t\<lparr>columnId := tgt\<rparr>])
   \<and> (i = 0 \<or> i \<le> - int (length (tasks tc)) \<longrightarrow>
        snd (Array_splice i 0 [t\<lparr>columnId := tgt\<rparr>] (tasks tc)) =
          t\<lparr>columnId := tgt\<rparr> # tasks tc)
   \<and> (i < 0 \<longrightarrow>
        snd (Array_splice i 0 [t\<lparr>columnId := tgt\<rparr>] (tasks tc)) =
          take (nat (int (length (tasks tc)) + i)) (tasks tc) @
          t\<lparr>columnId := tgt\<rparr> # drop (nat (int (length (tasks tc)) + i)) (tasks tc))"
proof -
  have "\<not> list_ex is_error_report (handle st (TaskDragOver tgt i (Resolved r)))"
    and "UncaughtTypeError \<notin> set (handle st (TaskDragOver tgt i (Resolved r)))"
    unfolding handleTaskDragOver_resolved[OF assms] by simp_all
  moreover have "get_prop (columns (step st (TaskDragOver tgt i (Resolved r)))) tgt =
       Some (tc\<lparr>tasks := snd (Array_splice i 0 [t\<lparr>columnId := tgt\<rparr>] (tasks tc))\<rparr>)"
    unfolding step_TaskDragOver_columns[OF assms] by (rule get_prop_move_task_target)
  ultimately show ?thesis
    using splice_insert_cases[of "tasks tc" i "t\<lparr>columnId := tgt\<rparr>"] by blast
qed

theorem handleTaskDragOver_target_index_witness:
  "draggedTask example_state =
     Some \<lparr>dragged_id = ''T1'', sourceColumnId = ''todo'', currentIndex = 0\<rparr>
   \<and> get_prop (columns example_state) ''todo'' =
       Some (example_column ''todo'' [example_task ''T1'' ''todo'', example_task ''T2'' ''todo''])
   \<and> get_prop (columns example_state) ''doing'' =
       Some (example_column ''doing'' [example_task ''T3'' ''doing'', example_task ''T4'' ''doing''])
   \<and> find (\<lambda>t. task_id t = ''T1'') [example_task ''T1'' ''todo'', example_task ''T2'' ''todo'']
       = Some (example_task ''T1'' ''todo'')
   \<and> get_prop (columns (step example_state
         (TaskDragOver ''doing'' 5 (Resolved (example_task ''T1'' ''doing''))))) ''doing'' =
       Some (example_column ''doing''
         [example_task ''T3'' ''doing'', example_task ''T4'' ''doing'', example_task ''T1'' ''doing''])
   \<and> get_prop (columns (step example_state
         (TaskDragOver ''doing'' 0 (Resolved (example_task ''T1'' ''doing''))))) ''doing'' =
       Some (example_column ''doing''
         [example_task ''T1'' ''doing'', example_task ''T3'' ''doing'', example_task ''T4'' ''doing''])
   \<and> get_prop (columns (step example_state
         (TaskDragOver ''doing'' (- 1) (Resolved (example_task ''T1'' ''doing''))))) ''doing'' =
       Some (example_column ''doing''
         [example_task ''T3'' ''doing'', example_task ''T1'' ''doing'', example_task ''T4'' ''doing''])"
proof -
  have d: "draggedTask example_state =
     Some \<lparr>dragged_id = ''T1'', sourceColumnId = ''todo'', currentIndex = 0\<rparr>"
    by (simp add: example_state_simps)
  have s: "get_prop (columns example_state)
       (sourceColumnId \<lparr>dragged_id = ''T1'', sourceColumnId = ''todo'', currentIndex = 0\<rparr>) =
       Some (example_column ''todo'' [example_task ''T1'' ''todo'', example_task ''T2'' ''todo''])"
    by (simp add: example_state_simps example_columns_props)
  have t: "get_prop (columns example_state) ''doing'' =
       Some (example_column ''doing'' [example_task ''T3'' ''doing'', example_task ''T4'' ''doing''])"
    by (simp add: example_state_simps example_columns_props)
  have f: "find (\<lambda>t. task_id t =
         dragged_id \<lparr>dragged_id = ''T1'', sourceColumnId = ''todo'', currentIndex = 0\<rparr>)
       (tasks (example_column ''todo'' [example_task ''T1'' ''todo'', example_task ''T2'' ''todo'']))
       = Some (example_task ''T1'' ''todo'')"
    by (simp add: example_column_simps example_task_simps)
  show ?thesis
    using d s t f
      handleTaskDragOver_target_index [OF d s t f, of 5 "example_task ''T1'' ''doing''"]
      handleTaskDragOver_target_index [OF d s t f, of 0 "example_task ''T1'' ''doing''"]
      handleTaskDragOver_target_index [OF d s t f, of "- 1" "example_task ''T1'' ''doing''"]
    by (simp add: example_column_simps example_task_simps Array_splice_def)
qed

subsection \<open>A move inside one column\<close>

lemma example_drag_columns:
  assumes "get_prop example_columns tgt = Some tc"
  shows "columns (step example_state (TaskDragOver tgt i (Resolved r))) =
     move_task ''T1'' ''todo''
       (example_column ''todo'' [example_task ''T1'' ''todo'', example_task ''T2'' ''todo''])
       tgt tc i (example_task ''T1'' tgt) example_columns"
  using assms step_TaskDragOver_columns [of example_state
        "\<lparr>dragged_id = ''T1'', sourceColumnId = ''todo'', currentIndex = 0\<rparr>"
        "example_column ''todo'' [example_task ''T1'' ''todo'', example_task ''T2'' ''todo'']"
        tgt tc "example_task ''T1'' ''todo''" i r]
  by (simp add: example_state_simps example_columns_props example_column_simps
      example_task_simps)

text \<open>
  Claim C1 fails on the code when the target column is the source column. The updater
  first stores the source column without the task and then stores the target column,
  built from the array the handler read before, with the updated task inserted; for one
  and the same column the second assignment replaces the first, so the removal is lost.
  Dragging \<^verbatim>\<open>T1\<close> over the second card of its own column leaves it twice in the
  sequence.
\<close>

theorem handleTaskDragOver_same_column_duplicates:
  "task_ids (columns (step example_state
        (TaskDragOver ''todo'' 1 (Resolved (example_task ''T1'' ''todo''))))) =
     [(''todo'', [''T1'', ''T1'', ''T2'']), (''doing'', [''T3'', ''T4'']), (''done'', [])]"
proof -
  have "columns (step example_state
        (TaskDragOver ''todo'' 1 (Resolved (example_task ''T1'' ''todo'')))) =
     [(''todo'', example_column ''todo''
         [example_task ''T1'' ''todo'', example_task ''T1'' ''todo'', example_task ''T2'' ''todo'']),
      (''doing'', example_column ''doing'' [example_task ''T3'' ''doing'', example_task ''T4'' ''doing'']),
      (''done'', example_column ''done'' [])]"
    unfolding example_drag_columns [OF example_columns_props(1)]
    by (simp add: move_task_def Let_def spread_no_index example_columns_keys
        example_column_simps example_task_simps Array_splice_def)
       (simp add: example_columns_def set_prop_Cons)
  then show ?thesis
    by (simp add: task_ids_def example_column_simps example_task_simps)
qed

text \<open>
  Claim C3 fails on the code for the same reason: dragging \<^verbatim>\<open>T1\<close>, the first task of
  \<^verbatim>\<open>todo\<close>, over its own column at its own index 0 adds a second copy in front of it,
  so the ids of the column are no longer the ones before the move.
\<close>

theorem handleTaskDragOver_own_place_duplicates:
  "task_ids (columns example_state) =
     [(''todo'', [''T1'', ''T2'']), (''doing'', [''T3'', ''T4'']), (''done'', [])]
   \<and> task_ids (columns (step example_state
        (TaskDragOver ''todo'' 0 (Resolved (example_task ''T1'' ''todo''))))) =
     [(''todo'', [''T1'', ''T1'', ''T2'']), (''doing'', [''T3'', ''T4'']), (''done'', [])]
   \<and> mset [''T1'', ''T1'', ''T2''] \<noteq> mset [''T1'', ''T2'']"
proof -
  have "columns (step example_state
        (TaskDragOver ''todo'' 0 (Resolved (example_task ''T1'' ''todo'')))) =
     [(''todo'', example_column ''todo''
         [example_task ''T1'' ''todo'', example_task ''T1'' ''todo'', example_task ''T2'' ''todo'']),
      (''doing'', example_column ''doing'' [example_task ''T3'' ''doing'', example_task ''T4'' ''doing'']),
      (''done'', example_column ''done'' [])]"
    unfolding example_drag_columns [OF example_columns_props(1)]
    by (simp add: move_task_def Let_def spread_no_index example_columns_keys
        example_column_simps example_task_simps Array_splice_def)
       (simp add: example_columns_def set_prop_Cons)
  moreover have "task_ids (columns example_state) =
     [(''todo'', [''T1'', ''T2'']), (''doing'', [''T3'', ''T4'']), (''done'', [])]"
    by (simp add: task_ids_def example_state_simps)
       (simp add: example_columns_def example_column_simps example_task_simps)
  ultimately show ?thesis
    by (simp add: task_ids_def example_column_simps example_task_simps)
qed

lemma splice_insert_length: "length (snd (Array_splice i 0 [x] xs)) = Suc (length xs)"
  by (auto simp: Array_splice_def Let_def)

text \<open>The same holds for every move inside one column: whatever the index, the column
  ends up one task longer than it was.\<close>

lemma move_within_column_grows:
  assumes "draggedTask st = Some d"
    and "get_prop (columns st) (sourceColumnId d) = Some sc"
    and "find (\<lambda>t. task_id t = dragged_id d) (tasks sc) = Some t"
  shows "\<exists>col. get_prop (columns (step st (TaskDragOver (sourceColumnId d) i (Resolved r))))
             (sourceColumnId d) = Some col
           \<and> length (tasks col) = Suc (length (tasks sc))"
  unfolding step_TaskDragOver_columns[OF assms(1,2,2,3)] get_prop_move_task_target
  by (simp add: splice_insert_length)


subsection \<open>A move between two columns\<close>

lemma splice_insert_form:
  "\<exists>p. snd (Array_splice i 0 [x] xs) = take p xs @ x # drop p xs"
  by (simp add: Array_splice_def Let_def) blast

text \<open>
  For a target column other than the source, the code does what claim C1 says: when the
  dragged task sits in its source column only, it sits afterwards in the target column
  only, once, and the stored task carries the target's key as its \<open>columnId\<close>. The
  columns change in the one call of \<^verbatim>\<open>setColumns\<close>.
\<close>

lemma move_between_columns:
  assumes dk: "distinct_keys (columns st)"
    and d: "draggedTask st = Some d"
    and sc: "get_prop (columns st) (sourceColumnId d) = Some sc"
    and tc: "get_prop (columns st) tgt = Some tc"
    and t: "find (\<lambda>t. task_id t = dragged_id d) (tasks sc) = Some t"
    and ne: "sourceColumnId d \<noteq> tgt"
    and only: "\<And>k c. get_prop (columns st) k = Some c \<Longrightarrow> k \<noteq> sourceColumnId d \<Longrightarrow>
                 dragged_id d \<notin> task_id ` set (tasks c)"
  shows "get_prop (columns (step st (TaskDragOver tgt i (Resolved r)))) k = Some c \<Longrightarrow>
           (dragged_id d \<in> task_id ` set (tasks c)) = (k = tgt)"
    and "\<exists>c. get_prop (columns (step st (TaskDragOver tgt i (Resolved r)))) tgt = Some c
           \<and> filter (\<lambda>x. task_id x = dragged_id d) (tasks c) = [t\<lparr>columnId := tgt\<rparr>]"
proof -
  let ?u = "t\<lparr>columnId := tgt\<rparr>"
  let ?cols = "columns (step st (TaskDragOver tgt i (Resolved r)))"
  have cols: "?cols = move_task (dragged_id d) (sourceColumnId d) sc tgt tc i ?u (columns st)"
    by (rule step_TaskDragOver_columns[OF d sc tc t])
  from t have idt: "task_id t = dragged_id d" by (auto simp: find_Some_iff)
  obtain p where p: "snd (Array_splice i 0 [?u] (tasks tc)) = take p (tasks tc) @ ?u # drop p (tasks tc)"
    using splice_insert_form[of i ?u "tasks tc"] by auto
  have notin: "dragged_id d \<notin> task_id ` set (tasks tc)" using only[OF tc] ne by simp
  then have none: "filter (\<lambda>x. task_id x = dragged_id d) ys = []" if "set ys \<subseteq> set (tasks tc)" for ys
    using that by (force simp: filter_empty_conv)
  have f: "filter (\<lambda>x. task_id x = dragged_id d) (snd (Array_splice i 0 [?u] (tasks tc))) = [?u]"
    unfolding p using idt none[of "take p (tasks tc)"] none[of "drop p (tasks tc)"]
    by (simp add: set_take_subset set_drop_subset)
  show "\<exists>c. get_prop ?cols tgt = Some c
           \<and> filter (\<lambda>x. task_id x = dragged_id d) (tasks c) = [?u]"
    unfolding cols get_prop_move_task_target using f by simp
  assume g: "get_prop ?cols k = Some c"
  show "(dragged_id d \<in> task_id ` set (tasks c)) = (k = tgt)"
  proof (cases "k = tgt")
    case True
    with g have "tasks c = snd (Array_splice i 0 [?u] (tasks tc))"
      unfolding cols by (auto simp: get_prop_move_task_target)
    with idt True show ?thesis unfolding p by simp
  next
    case False
    show ?thesis
    proof (cases "k = sourceColumnId d")
      case True
      with g False have "tasks c = filter (\<lambda>t. task_id t \<noteq> dragged_id d) (tasks sc)"
        unfolding cols by (auto simp: get_prop_move_task[OF dk])
      with False show ?thesis by auto
    next
      case k: False
      with g False have "get_prop (columns st) k = Some c"
        unfolding cols by (simp add: get_prop_move_task[OF dk])
      from only[OF this k] False show ?thesis by simp
    qed
  qed
qed

section \<open>Editing a task\<close>

lemma get_prop_map_values:
  "get_prop (map (\<lambda>(k, v). (k, f v)) obj) k = map_option f (get_prop obj k)"
  by (simp add: get_prop_def map_of_map)

lemma get_prop_replace_task:
  "distinct_keys prev \<Longrightarrow>
   get_prop (replace_task ident updatedTask prev) k =
     map_option (\<lambda>col. col\<lparr>tasks := map (\<lambda>t. if task_id t = ident then updatedTask else t)
                                          (tasks col)\<rparr>)
       (get_prop prev k)"
  by (simp add: replace_task_def get_prop_map_values get_prop_spread)

lemma step_EditTask_columns:
  "columns (step st (EditTask task (Resolved updatedTask))) =
     replace_task (task_id task) updatedTask (columns st)"
  by (simp add: step_def handleEditTask_def dispatch_def Let_def run_Cons run_Nil)

text \<open>
  Claim C9. After a task edit whose request resolved, every column key holds the column
  it held before with each task of the edited id replaced, in its place, by the task the
  request returned, and every other task untouched. So the sequence of each column keeps
  its length, and, the returned task having the id of the edited one (the server sends
  the request body back), its order of task ids: no task changes column, whatever the
  \<open>columnId\<close> of the returned task says.
\<close>

theorem handleEditTask_in_place:
  assumes "distinct_keys (columns st)"
  shows "get_prop (columns (step st (EditTask task (Resolved updatedTask)))) k =
       map_option
         (\<lambda>col. col\<lparr>tasks := map (\<lambda>t. if task_id t = task_id task then updatedTask else t)
                                  (tasks col)\<rparr>)
         (get_prop (columns st) k)
   \<and> (get_prop (columns st) k = Some col \<longrightarrow>
        (\<exists>col'. get_prop (columns (step st (EditTask task (Resolved updatedTask)))) k = Some col'
           \<and> length (tasks col') = length (tasks col)
           \<and> (\<forall>i < length (tasks col).
                 tasks col' ! i =
                   (if task_id (tasks col ! i) = task_id task then updatedTask else tasks col ! i))
           \<and> (task_id updatedTask = task_id task \<longrightarrow>
                 map task_id (tasks col') = map task_id (tasks col))))"
proof -
  let ?f = "\<lambda>t. if task_id t = task_id task then updatedTask else t"
  have g: "get_prop (columns (step st (EditTask task (Resolved updatedTask)))) k =
       map_option (\<lambda>col. col\<lparr>tasks := map ?f (tasks col)\<rparr>) (get_prop (columns st) k)"
    unfolding step_EditTask_columns by (rule get_prop_replace_task[OF assms])
  have ids: "task_id updatedTask = task_id task \<Longrightarrow> map task_id (map ?f ts) = map task_id ts"
    for ts by (induction ts) auto
  show ?thesis
    unfolding g using ids by auto
qed

theorem handleEditTask_in_place_witness:
  "distinct_keys (columns example_state)
   \<and> get_prop (columns example_state) ''todo'' =
       Some (example_column ''todo'' [example_task ''T1'' ''todo'', example_task ''T2'' ''todo''])
   \<and> get_prop (columns (step example_state
         (EditTask (example_task ''T1'' ''doing'') (Resolved (example_task ''T1'' ''doing'')))))
         ''todo'' =
       Some (example_column ''todo'' [example_task ''T1'' ''doing'', example_task ''T2'' ''todo''])
   \<and> get_prop (columns (step example_state
         (EditTask (example_task ''T1'' ''doing'') (Resolved (example_task ''T1'' ''doing'')))))
         ''doing'' =
       Some (example_column ''doing'' [example_task ''T3'' ''doing'', example_task ''T4'' ''doing''])"
proof -
  have d: "distinct_keys (columns example_state)"
    by (simp add: example_state_simps example_columns_keys)
  show ?thesis
    using d
      handleEditTask_in_place [OF d, of "example_task ''T1'' ''doing''"
        "example_task ''T1'' ''doing''" "''todo''"
        "example_column ''todo'' [example_task ''T1'' ''todo'', example_task ''T2'' ''todo'']"]
      handleEditTask_in_place [OF d, of "example_task ''T1'' ''doing''"
        "example_task ''T1'' ''doing''" "''doing''"
        "example_column ''doing'' [example_task ''T3'' ''doing'', example_task ''T4'' ''doing'']"]
    by (simp add: example_state_simps example_columns_props example_column_simps
        example_task_simps)
qed

section \<open>Requests and local state\<close>

text \<open>
  Claim C2, as stated, says that a mutation changes the local state before it issues its
  request and keeps that change when the request fails. Adding a member to the concrete
  board: the request is the first thing the handler does and the setter follows it; when
  the request is rejected the member list stays as it was, without the new member.
\<close>

theorem handleAddMember_request_first_counterexample:
  "handle example_state (AddMember (example_member ''carol'') (Resolved (example_member ''carol''))) =
     [ApiCall (createMember (example_member ''carol'')),
      SetMembers [example_member ''alice'', example_member ''bob'', example_member ''carol'']]
   \<and> handle example_state (AddMember (example_member ''carol'') Rejected) =
     [ApiCall (createMember (example_member ''carol'')), ConsoleError ''Failed to add member:'']
   \<and> members (step example_state (AddMember (example_member ''carol'') Rejected)) =
     [example_member ''alice'', example_member ''bob'']"
  by (simp add: handleAddMember_def example_state_simps truthy_def step_def dispatch_def
      Let_def run_Cons run_Nil)

lemma set_columns_or_throw_quiet:
  "\<not> list_ex is_request (set_columns_or_throw r)"
  by (simp add: set_columns_or_throw_def split: option.splits)

lemma rejected_trace:
  assumes "is_mutation a" "rejected a"
  shows "handle st a = [] \<or> handle st a = [Alert ''Cannot delete the last board'']
     \<or> (\<exists>r msg. handle st a = [ApiCall r, ConsoleError msg])"
  using assms
  by (cases a)
     (simp_all add: handleAddMember_def handleRemoveMember_def handleAddBoard_def
        handleEditBoard_def handleRemoveBoard_def handleAddTask_def handleEditTask_def
        handleRemoveTask_def handleCopyTask_def handleEditColumn_def handleRemoveColumn_def
        handleAddColumn_def handleTaskDragOver_def Let_def
        split: option.splits)

lemma request_first:
  assumes "is_mutation a"
  shows "handle st a = [] \<or> handle st a = [Alert ''Cannot delete the last board'']
     \<or> (\<exists>r evs. handle st a = ApiCall r # evs)"
  using assms
  by (cases a)
     (simp_all add: handleAddMember_def handleRemoveMember_def handleAddBoard_def
        handleEditBoard_def handleRemoveBoard_def handleAddTask_def handleEditTask_def
        handleRemoveTask_def handleCopyTask_def handleEditColumn_def handleRemoveColumn_def
        handleAddColumn_def handleTaskDragOver_def Let_def
        split: option.splits)

subsection \<open>What each handler does with its request\<close>

lemma dispatch_frame:
  "boards (dispatch st evs) = boards (run st evs)"
  "selectedBoard (dispatch st evs) = selectedBoard (run st evs)"
  "members (dispatch st evs) = members (run st evs)"
  by (simp_all add: dispatch_def Let_def run_effect_frame)

lemma member_mutations:
  "take 1 (handle st (AddMember m res)) = [ApiCall (createMember m)]"
  "members (step st (AddMember m (Resolved created))) = members st @ [created]"
  "take 1 (handle st (RemoveMember ident resu)) = [ApiCall (deleteMember ident)]"
  "members (step st (RemoveMember ident (Resolved u))) =
     filter (\<lambda>x. member_id x \<noteq> ident) (members st)"
  by (simp_all add: step_def dispatch_frame handleAddMember_def handleRemoveMember_def
      run_Cons run_Nil)

lemma board_mutations:
  "take 1 (handle st (AddBoard uuid resb)) = [ApiCall (createBoard (newBoard st uuid))]"
  "boards (step st (AddBoard uuid (Resolved createdBoard))) = boards st @ [createdBoard]"
  "selectedBoard (step st (AddBoard uuid (Resolved createdBoard))) =
     Some (board_id createdBoard)"
  "take 1 (handle st (EditBoard boardId title resu)) = [ApiCall (updateBoard boardId title)]"
  "boards (step st (EditBoard boardId title (Resolved u))) =
     map (\<lambda>b. if board_id b = boardId then b\<lparr>board_title := title\<rparr> else b) (boards st)"
  by (simp_all add: step_def dispatch_frame handleAddBoard_def handleEditBoard_def
      run_Cons run_Nil)

lemma remove_board_mutation:
  "2 \<le> length (boards st) \<longrightarrow>
     take 1 (handle st (RemoveBoard boardId resu)) = [ApiCall (deleteBoard boardId)]
     \<and> boards (step st (RemoveBoard boardId (Resolved u))) =
         filter (\<lambda>b. board_id b \<noteq> boardId) (boards st)"
proof
  assume "2 \<le> length (boards st)"
  then have g: "\<not> length (boards st) \<le> 1" by simp
  show "take 1 (handle st (RemoveBoard boardId resu)) = [ApiCall (deleteBoard boardId)]
     \<and> boards (step st (RemoveBoard boardId (Resolved u))) =
         filter (\<lambda>b. board_id b \<noteq> boardId) (boards st)"
    using g
    by (simp add: step_def dispatch_frame handleRemoveBoard_def Let_def run_Cons run_Nil
        split: list.splits)
qed

lemma step_columns_plain:
  "selectedBoard (run st evs) = selectedBoard st \<Longrightarrow> \<not> list_ex sets_boards evs \<Longrightarrow>
   columns (dispatch st evs) = columns (run st evs)"
  by (simp add: dispatch_plain)

lemma task_mutations:
  "take 1 (handle st (EditTask task rest)) = [ApiCall (updateTask task)]"
  "columns (step st (EditTask task (Resolved updatedTask))) =
     replace_task (task_id task) updatedTask (columns st)"
  "take 1 (handle st (RemoveTask taskId resu)) = [ApiCall (deleteTask taskId)]"
  "columns (step st (RemoveTask taskId (Resolved u))) = remove_task taskId (columns st)"
  "take 1 (handle st (CopyTask task uuid rest)) =
     [ApiCall (createTask (task\<lparr>task_id := uuid, task_title := task_title task @ '' (Copy)'',
                                 comments := []\<rparr>))]"
  by (simp_all add: step_def dispatch_def handleEditTask_def handleRemoveTask_def
      handleCopyTask_def Let_def run_Cons run_Nil)

lemma add_task_mutation:
  "truthy (selectedMember st) \<and> truthy (selectedBoard st) \<longrightarrow>
     take 1 (handle st (AddTask colId uuid today rest)) =
       [ApiCall (createTask (newTask st colId uuid today))]
     \<and> (get_prop (columns st) colId = Some col \<longrightarrow>
          columns (step st (AddTask colId uuid today (Resolved createdTask))) =
            set_prop colId (col\<lparr>tasks := tasks col @ [createdTask]\<rparr>) (spread (columns st)))"
  by (simp add: step_def dispatch_def handleAddTask_def append_task_def
      set_columns_or_throw_def Let_def run_Cons run_Nil)

lemma copy_task_mutation:
  "get_prop (columns st) (columnId task) = Some col \<longrightarrow>
     columns (step st (CopyTask task uuid (Resolved createdTask))) =
       set_prop (columnId task) (col\<lparr>tasks := tasks col @ [createdTask]\<rparr>) (spread (columns st))"
  by (simp add: step_def dispatch_def handleCopyTask_def append_task_def
      set_columns_or_throw_def Let_def run_Cons run_Nil)

lemma drag_task_mutation:
  "draggedTask st = Some d \<and> get_prop (columns st) (sourceColumnId d) = Some sc
     \<and> get_prop (columns st) tgt = Some tc
     \<and> find (\<lambda>x. task_id x = dragged_id d) (tasks sc) = Some t \<longrightarrow>
     take 1 (handle st (TaskDragOver tgt i rest)) = [ApiCall (updateTask (t\<lparr>columnId := tgt\<rparr>))]
     \<and> columns (step st (TaskDragOver tgt i (Resolved r))) =
         move_task (dragged_id d) (sourceColumnId d) sc tgt tc i (t\<lparr>columnId := tgt\<rparr>)
           (columns st)"
  by (simp add: step_def dispatch_def handleTaskDragOver_def Let_def run_Cons run_Nil)

lemma column_mutations:
  "take 1 (handle st (EditColumn colId title resu)) = [ApiCall (updateColumn colId title)]"
  "get_prop (columns st) colId = Some col \<longrightarrow>
     columns (step st (EditColumn colId title (Resolved u))) =
       set_prop colId (col\<lparr>column_title := title\<rparr>) (spread (columns st))"
  "take 1 (handle st (RemoveColumn colId resu)) = [ApiCall (deleteColumn colId)]"
  "columns (step st (RemoveColumn colId (Resolved u))) = rest_without colId (columns st)"
  by (simp_all add: step_def dispatch_def handleEditColumn_def handleRemoveColumn_def
      rename_column_def set_columns_or_throw_def Let_def run_Cons run_Nil)

lemma add_column_mutation:
  "truthy (selectedBoard st) \<longrightarrow>
     take 1 (handle st (AddColumn uuid resc)) =
       [ApiCall (createColumn \<lparr>column_id = uuid, column_title = ''New Column'', tasks = [],
                               column_boardId = the (selectedBoard st)\<rparr>)]
     \<and> columns (step st (AddColumn uuid (Resolved createdColumn))) =
         set_prop uuid createdColumn (spread (columns st))"
  by (simp add: step_def dispatch_def handleAddColumn_def Let_def run_Cons run_Nil)

lemma comment_mutation:
  "\<not> isSubmitting ds \<longrightarrow>
     \<not> list_ex is_state_change
         (takeWhile (\<lambda>e. \<not> is_request e)
            (handleAddComment ds st content newAttachments uuid now res res'))
     \<and> handleAddComment ds st content newAttachments uuid now Rejected res' =
         [SetIsSubmitting True,
          ApiCall (createComment
             \<lparr>comment_id = uuid, comment_text = content, authorId = memberId (editedTask ds),
              createdAt = now, attachments = newAttachments\<rparr> (task_id (editedTask ds))),
          ConsoleError ''Failed to add comment:'',
          Alert ''Failed to add comment. Please try again.'',
          SetIsSubmitting False]
     \<and> run_details ds (handleAddComment ds st content newAttachments uuid now Rejected res') = ds
     \<and> run st (handleAddComment ds st content newAttachments uuid now Rejected res') = st
     \<and> handleAddComment ds st content newAttachments uuid now (Resolved savedComment) res' =
         [SetIsSubmitting True,
          ApiCall (createComment
             \<lparr>comment_id = uuid, comment_text = content, authorId = memberId (editedTask ds),
              createdAt = now, attachments = newAttachments\<rparr> (task_id (editedTask ds))),
          SetEditedTask ((editedTask ds)\<lparr>comments := comments (editedTask ds) @ [savedComment]\<rparr>),
          ApiCall (updateTask
             ((editedTask ds)\<lparr>comments := comments (editedTask ds) @ [savedComment]\<rparr>)),
          SetIsSubmitting False] @
         tl (handle st (EditTask
             ((editedTask ds)\<lparr>comments := comments (editedTask ds) @ [savedComment]\<rparr>) res'))
     \<and> editedTask (run_details ds
           (handleAddComment ds st content newAttachments uuid now (Resolved savedComment) res')) =
         (editedTask ds)\<lparr>comments := comments (editedTask ds) @ [savedComment]\<rparr>"
  by (cases res')
     (simp_all add: handleAddComment_def handleEditTask_def Let_def run_details_def
        run_Cons run_Nil)

lemma update_draft_first:
  "\<not> isSubmitting ds \<longrightarrow>
     handleUpdate ds st updatedFields Rejected =
       [SetEditedTask (updatedFields (editedTask ds)), SetIsSubmitting True,
        ApiCall (updateTask (updatedFields (editedTask ds))),
        ConsoleError ''Failed to update task:'', SetIsSubmitting False]
     \<and> editedTask (run_details ds (handleUpdate ds st updatedFields Rejected)) =
         updatedFields (editedTask ds)
     \<and> run st (handleUpdate ds st updatedFields Rejected) = st
     \<and> handleUpdate ds st updatedFields (Resolved updatedTask) =
       [SetEditedTask (updatedFields (editedTask ds)), SetIsSubmitting True,
        ApiCall (updateTask (updatedFields (editedTask ds))),
        SetColumns (replace_task (task_id (updatedFields (editedTask ds))) updatedTask (columns st)),
        SetIsSubmitting False]"
  by (simp add: handleUpdate_def handleEditTask_def Let_def run_details_def run_Cons run_Nil)

lemma mutation_order:
  "is_mutation a \<longrightarrow>
     \<not> list_ex is_state_change (takeWhile (\<lambda>e. \<not> is_request e) (handle st a))"
  using request_first[of a st] by auto

lemma mutation_rejected:
  "is_mutation a \<and> rejected a \<longrightarrow>
     step st a = st
     \<and> \<not> list_ex is_state_change (handle st a)
     \<and> (list_ex is_request (handle st a) \<longrightarrow>
           (\<exists>r msg. handle st a = [ApiCall r, ConsoleError msg]))"
proof
  assume m: "is_mutation a \<and> rejected a"
  then have t: "handle st a = [] \<or> handle st a = [Alert ''Cannot delete the last board'']
     \<or> (\<exists>r msg. handle st a = [ApiCall r, ConsoleError msg])"
    by (simp add: rejected_trace)
  then have "step st a = st"
    by (auto simp: step_def dispatch_def Let_def run_Cons run_Nil)
  with t show "step st a = st
     \<and> \<not> list_ex is_state_change (handle st a)
     \<and> (list_ex is_request (handle st a) \<longrightarrow>
           (\<exists>r msg. handle st a = [ApiCall r, ConsoleError msg]))"
    by auto
qed

text \<open>
  Claim C2, amended. Every create, update and delete handler of the board state issues
  its persistence call first and applies the local state change only once the call has
  resolved; when the call is rejected it logs the error to the console, calls no setter
  and leaves the state as it was before the action, so there is nothing to roll back.
  Handler by handler, when its guard lets it run: adding and removing a member, adding,
  renaming and removing a board (two boards or more), adding a task (a member and a board
  selected), editing, removing and copying a task, moving a task by drag-over (a dragged
  task found in its source column, the target column present), renaming, removing and
  adding a column (a board selected) each start with their own request, and the resolved
  request is followed by the change of the members, the boards or the columns written
  out below. Creating a comment in the details panel keeps the same order: but for the
  busy flag, the draft and the board state are written only after the comment request
  has resolved, and a rejected request logs the error, raises an alert and leaves both
  unchanged. The one optimistic write is the field edit of the details panel
  (\<^verbatim>\<open>handleUpdate\<close>): it stores the edited draft before the request is issued and keeps
  it when the request is rejected, the error being logged and the board state left
  unchanged.
\<close>

theorem mutations_request_first:
  "(is_mutation a \<longrightarrow>
      \<not> list_ex is_state_change (takeWhile (\<lambda>e. \<not> is_request e) (handle st a)))
   \<and> (is_mutation a \<and> rejected a \<longrightarrow>
      step st a = st
      \<and> \<not> list_ex is_state_change (handle st a)
      \<and> (list_ex is_request (handle st a) \<longrightarrow>
            (\<exists>r msg. handle st a = [ApiCall r, ConsoleError msg])))
   \<and> take 1 (handle st (AddMember m resm)) = [ApiCall (createMember m)]
   \<and> members (step st (AddMember m (Resolved created))) = members st @ [created]
   \<and> take 1 (handle st (RemoveMember ident resu)) = [ApiCall (deleteMember ident)]
   \<and> members (step st (RemoveMember ident (Resolved u))) =
       filter (\<lambda>x. member_id x \<noteq> ident) (members st)
   \<and> take 1 (handle st (AddBoard uuid resb)) = [ApiCall (createBoard (newBoard st uuid))]
   \<and> boards (step st (AddBoard uuid (Resolved createdBoard))) = boards st @ [createdBoard]
   \<and> selectedBoard (step st (AddBoard uuid (Resolved createdBoard))) =
       Some (board_id createdBoard)
   \<and> take 1 (handle st (EditBoard boardId title resu)) = [ApiCall (updateBoard boardId title)]
   \<and> boards (step st (EditBoard boardId title (Resolved u))) =
       map (\<lambda>b. if board_id b = boardId then b\<lparr>board_title := title\<rparr> else b) (boards st)
   \<and> (2 \<le> length (boards st) \<longrightarrow>
       take 1 (handle st (RemoveBoard boardId resu)) = [ApiCall (deleteBoard boardId)]
       \<and> boards (step st (RemoveBoard boardId (Resolved u))) =
           filter (\<lambda>b. board_id b \<noteq> boardId) (boards st))
   \<and> (truthy (selectedMember st) \<and> truthy (selectedBoard st) \<longrightarrow>
       take 1 (handle st (AddTask colId uuid today rest)) =
         [ApiCall (createTask (newTask st colId uuid today))]
       \<and> (get_prop (columns st) colId = Some col \<longrightarrow>
            columns (step st (AddTask colId uuid today (Resolved createdTask))) =
              set_prop colId (col\<lparr>tasks := tasks col @ [createdTask]\<rparr>) (spread (columns st))))
   \<and> take 1 (handle st (EditTask task rest)) = [ApiCall (updateTask task)]
   \<and> columns (step st (EditTask task (Resolved updatedTask))) =
       replace_task (task_id task) updatedTask (columns st)
   \<and> take 1 (handle st (RemoveTask taskId resu)) = [ApiCall (deleteTask taskId)]
   \<and> columns (step st (RemoveTask taskId (Resolved u))) = remove_task taskId (columns st)
   \<and> take 1 (handle st (CopyTask task uuid rest)) =
       [ApiCall (createTask (task\<lparr>task_id := uuid, task_title := task_title task @ '' (Copy)'',
                                   comments := []\<rparr>))]
   \<and> (get_prop (columns st) (columnId task) = Some col \<longrightarrow>
       columns (step st (CopyTask task uuid (Resolved createdTask))) =
         set_prop (columnId task) (col\<lparr>tasks := tasks col @ [createdTask]\<rparr>)
           (spread (columns st)))
   \<and> (draggedTask st = Some d \<and> get_prop (columns st) (sourceColumnId d) = Some sc
       \<and> get_prop (columns st) tgt = Some tc
       \<and> find (\<lambda>x. task_id x = dragged_id d) (tasks sc) = Some t \<longrightarrow>
       take 1 (handle st (TaskDragOver tgt i rest)) =
         [ApiCall (updateTask (t\<lparr>columnId := tgt\<rparr>))]
       \<and> columns (step st (TaskDragOver tgt i (Resolved r))) =
           move_task (dragged_id d) (sourceColumnId d) sc tgt tc i (t\<lparr>columnId := tgt\<rparr>)
             (columns st))
   \<and> take 1 (handle st (EditColumn colId title resu)) = [ApiCall (updateColumn colId title)]
   \<and> (get_prop (columns st) colId = Some col \<longrightarrow>
       columns (step st (EditColumn colId title (Resolved u))) =
         set_prop colId (col\<lparr>column_title := title\<rparr>) (spread (columns st)))
   \<and> take 1 (handle st (RemoveColumn colId resu)) = [ApiCall (deleteColumn colId)]
   \<and> columns (step st (RemoveColumn colId (Resolved u))) = rest_without colId (columns st)
   \<and> (truthy (selectedBoard st) \<longrightarrow>
       take 1 (handle st (AddColumn uuid resc)) =
         [ApiCall (createColumn \<lparr>column_id = uuid, column_title = ''New Column'', tasks = [],
                                 column_boardId = the (selectedBoard st)\<rparr>)]
       \<and> columns (step st (AddColumn uuid (Resolved createdColumn))) =
           set_prop uuid createdColumn (spread (columns st)))
   \<and> (\<not> isSubmitting ds \<longrightarrow>
       \<not> list_ex is_state_change
           (takeWhile (\<lambda>e. \<not> is_request e)
              (handleAddComment ds st content newAttachments uuid now resk res'))
       \<and> handleAddComment ds st content newAttachments uuid now Rejected res' =
           [SetIsSubmitting True,
            ApiCall (createComment
               \<lparr>comment_id = uuid, comment_text = content, authorId = memberId (editedTask ds),
                createdAt = now, attachments = newAttachments\<rparr> (task_id (editedTask ds))),
            ConsoleError ''Failed to add comment:'',
            Alert ''Failed to add comment. Please try again.'',
            SetIsSubmitting False]
       \<and> run_details ds (handleAddComment ds st content newAttachments uuid now Rejected res') = ds
       \<and> run st (handleAddComment ds st content newAttachments uuid now Rejected res') = st
       \<and> handleAddComment ds st content newAttachments uuid now (Resolved savedComment) res' =
           [SetIsSubmitting True,
            ApiCall (createComment
               \<lparr>comment_id = uuid, comment_text = content, authorId = memberId (editedTask ds),
                createdAt = now, attachments = newAttachments\<rparr> (task_id (editedTask ds))),
            SetEditedTask ((editedTask ds)\<lparr>comments := comments (editedTask ds) @ [savedComment]\<rparr>),
            ApiCall (updateTask
               ((editedTask ds)\<lparr>comments := comments (editedTask ds) @ [savedComment]\<rparr>)),
            SetIsSubmitting False] @
           tl (handle st (EditTask
               ((editedTask ds)\<lparr>comments := comments (editedTask ds) @ [savedComment]\<rparr>) res'))
       \<and> editedTask (run_details ds
             (handleAddComment ds st content newAttachments uuid now (Resolved savedComment) res')) =
           (editedTask ds)\<lparr>comments := comments (editedTask ds) @ [savedComment]\<rparr>)
   \<and> (\<not> isSubmitting ds \<longrightarrow>
       handleUpdate ds st updatedFields Rejected =
         [SetEditedTask (updatedFields (editedTask ds)), SetIsSubmitting True,
          ApiCall (updateTask (updatedFields (editedTask ds))),
          ConsoleError ''Failed to update task:'', SetIsSubmitting False]
       \<and> editedTask (run_details ds (handleUpdate ds st updatedFields Rejected)) =
           updatedFields (editedTask ds)
       \<and> run st (handleUpdate ds st updatedFields Rejected) = st
       \<and> handleUpdate ds st updatedFields (Resolved updatedTask) =
         [SetEditedTask (updatedFields (editedTask ds)), SetIsSubmitting True,
          ApiCall (updateTask (updatedFields (editedTask ds))),
          SetColumns (replace_task (task_id (updatedFields (editedTask ds))) updatedTask
                        (columns st)),
          SetIsSubmitting False])"
  by (intro conjI)
     (rule mutation_order mutation_rejected member_mutations board_mutations
        remove_board_mutation add_task_mutation task_mutations copy_task_mutation
        drag_task_mutation column_mutations add_column_mutation comment_mutation
        update_draft_first)+

theorem mutations_request_first_witness:
  "is_mutation (RemoveTask ''T1'' Rejected) \<and> rejected (RemoveTask ''T1'' Rejected)
   \<and> list_ex is_request (handle example_state (RemoveTask ''T1'' Rejected))
   \<and> handle example_state (RemoveTask ''T1'' Rejected) =
       [ApiCall (deleteTask ''T1''), ConsoleError ''Failed to remove task:'']
   \<and> step example_state (RemoveTask ''T1'' Rejected) = example_state
   \<and> 2 \<le> length (boards example_state)
   \<and> take 1 (handle example_state (RemoveBoard ''b2'' Rejected)) = [ApiCall (deleteBoard ''b2'')]
   \<and> truthy (selectedMember example_state) \<and> truthy (selectedBoard example_state)
   \<and> get_prop (columns example_state) ''todo'' =
       Some (example_column ''todo'' [example_task ''T1'' ''todo'', example_task ''T2'' ''todo''])
   \<and> take 1 (handle example_state (AddTask ''todo'' ''u1'' ''2024-05-02'' Rejected)) =
       [ApiCall (createTask (newTask example_state ''todo'' ''u1'' ''2024-05-02''))]
   \<and> columns (step example_state
        (AddTask ''todo'' ''u1'' ''2024-05-02'' (Resolved (example_task ''u1'' ''todo'')))) =
       set_prop ''todo''
         (example_column ''todo''
            [example_task ''T1'' ''todo'', example_task ''T2'' ''todo'', example_task ''u1'' ''todo''])
         (spread (columns example_state))
   \<and> draggedTask example_state =
       Some \<lparr>dragged_id = ''T1'', sourceColumnId = ''todo'', currentIndex = 0\<rparr>
   \<and> get_prop (columns example_state) ''doing'' =
       Some (example_column ''doing'' [example_task ''T3'' ''doing'', example_task ''T4'' ''doing''])
   \<and> find (\<lambda>x. task_id x = ''T1'') [example_task ''T1'' ''todo'', example_task ''T2'' ''todo'']
       = Some (example_task ''T1'' ''todo'')
   \<and> take 1 (handle example_state (TaskDragOver ''doing'' 0 Rejected)) =
       [ApiCall (updateTask (example_task ''T1'' ''doing''))]
   \<and> take 1 (handle example_state (AddColumn ''u1'' Rejected)) =
       [ApiCall (createColumn \<lparr>column_id = ''u1'', column_title = ''New Column'', tasks = [],
                               column_boardId = ''b1''\<rparr>)]
   \<and> \<not> isSubmitting example_details
   \<and> run_details example_details
        (handleAddComment example_details example_state ''Looks good'' [] ''u1''
           ''2024-05-02T10:00:00.000Z'' Rejected Rejected) = example_details
   \<and> editedTask (run_details example_details
        (handleUpdate example_details example_state (\<lambda>t. t\<lparr>effort := 3\<rparr>) Rejected)) =
       (example_task ''T1'' ''todo'')\<lparr>effort := 3\<rparr>
   \<and> run example_state
        (handleUpdate example_details example_state (\<lambda>t. t\<lparr>effort := 3\<rparr>) Rejected) =
       example_state"
proof -
  have b: "2 \<le> length (boards example_state)"
    by (simp add: example_state_def)
  show ?thesis
    using b mutations_request_first [where a = "RemoveTask ''T1'' Rejected" and st = example_state
      and ds = example_details and boardId = "''b2''" and resu = Rejected
      and colId = "''todo''" and uuid = "''u1''" and today = "''2024-05-02''" and rest = Rejected
      and col = "example_column ''todo'' [example_task ''T1'' ''todo'', example_task ''T2'' ''todo'']"
      and createdTask = "example_task ''u1'' ''todo''"
      and task = "example_task ''T1'' ''todo''"
      and d = "\<lparr>dragged_id = ''T1'', sourceColumnId = ''todo'', currentIndex = 0\<rparr>"
      and sc = "example_column ''todo'' [example_task ''T1'' ''todo'', example_task ''T2'' ''todo'']"
      and tgt = "''doing''"
      and tc = "example_column ''doing'' [example_task ''T3'' ''doing'', example_task ''T4'' ''doing'']"
      and t = "example_task ''T1'' ''todo''" and i = 0 and resc = Rejected
      and content = "''Looks good''" and newAttachments = "[]"
      and now = "''2024-05-02T10:00:00.000Z''" and res' = Rejected
      and updatedFields = "\<lambda>t. t\<lparr>effort := 3\<rparr>"
      and m = "example_member ''carol''" and resm = Rejected
      and created = "example_member ''carol''" and ident = "''bob''" and resb = Rejected
      and createdBoard = "example_board ''b3'' []" and title = "''Renamed''"
      and updatedTask = "example_task ''T1'' ''todo''" and taskId = "''T1''"
      and r = "example_task ''T1'' ''doing''"
      and createdColumn = "example_column ''u1'' []" and resk = Rejected
      and savedComment = "\<lparr>comment_id = ''c1'', comment_text = ''Looks good'',
          authorId = ''alice'', createdAt = ''2024-05-02T10:00:00.000Z'', attachments = []\<rparr>"
      and u = "()"]
    by (simp add: example_state_simps example_columns_props example_column_simps
        example_task_simps example_details_def truthy_def run_details_def
        handleRemoveTask_def run_Cons run_Nil)
qed

section \<open>Dragging a column over another\<close>

lemma splice_removed_le_one: "length (fst (Array_splice s 1 items xs)) \<le> 1"
  by (auto simp: Array_splice_def Let_def min_def)

lemma splice_insert_removed: "fst (Array_splice s 0 items xs) = []"
  by (simp add: Array_splice_def Let_def)

lemma mset_keys_distinct:
  "mset es' = mset es \<Longrightarrow> distinct (map fst es) \<Longrightarrow> distinct (map fst es')"
  by (metis mset_eq_imp_distinct_iff mset_map)

lemma mset_no_index_keys:
  "mset es' = mset es \<Longrightarrow> no_index_keys es \<Longrightarrow> no_index_keys es'"
  by (metis no_index_keys_def list_all_iff set_mset_mset)

text \<open>What the two \<^verbatim>\<open>splice\<close> calls leave, for a dragged entry at \<open>di\<close> and a
  target at \<open>ti\<close>.\<close>

lemma moved_entries:
  assumes "di < length es" "ti < length es"
  shows "(case Array_splice (int di) 1 [] es of
            (draggedEntry # others, newEntries) \<Rightarrow>
               f (snd (Array_splice (int ti) 0 [draggedEntry] newEntries))
          | ([], newEntries) \<Rightarrow> g) =
         f (take ti (take di es @ drop (Suc di) es) @ es ! di #
            drop ti (take di es @ drop (Suc di) es))"
proof -
  have "ti \<le> length (take di es @ drop (Suc di) es)" using assms by simp
  then show ?thesis
    using assms by (simp add: splice_remove splice_insert)
qed

lemma moved_nth:
  assumes "di < length es" "ti < length es"
  defines "es1 \<equiv> take di es @ drop (Suc di) es"
  defines "es2 \<equiv> take ti es1 @ es ! di # drop ti es1"
  shows "es2 ! ti = es ! di"
    and "ti < di \<Longrightarrow> es2 ! Suc ti = es ! ti"
    and "di < ti \<Longrightarrow> es2 ! (ti - 1) = es ! ti"
    and "length es2 = length es"
    and "mset es2 = mset es"
    and "\<not> P (es ! di) \<Longrightarrow> filter P es2 = filter P es"
proof -
  have l1: "length es1 = length es - 1" using assms(1) by (simp add: es1_def)
  have t: "ti \<le> length es1" using assms l1 by simp
  have lt: "length (take ti es1) = ti" using t by simp
  show "es2 ! ti = es ! di"
    unfolding es2_def using lt by (metis nth_append_length)
  show "length es2 = length es" using assms(1) l1 by (simp add: es2_def)
  have e: "es = take di es @ es ! di # drop (Suc di) es"
    using assms(1) by (rule id_take_nth_drop)
  have m1: "mset es = add_mset (es ! di) (mset es1)"
    by (subst e) (simp add: es1_def)
  have "mset (take ti es1) + mset (drop ti es1) = mset es1"
    by (metis append_take_drop_id mset_append)
  then have "mset es2 = add_mset (es ! di) (mset es1)"
    unfolding es2_def by simp
  then show "mset es2 = mset es" using m1 by simp
  {
    assume "\<not> P (es ! di)"
    then have "filter P es2 = filter P (take ti es1) @ filter P (drop ti es1)"
      unfolding es2_def by simp
    also have "\<dots> = filter P es1" by (metis append_take_drop_id filter_append)
    also have "\<dots> = filter P (take di es @ es ! di # drop (Suc di) es)"
      using \<open>\<not> P (es ! di)\<close> by (simp add: es1_def)
    also have "\<dots> = filter P es" using e by simp
    finally show "filter P es2 = filter P es" .
  }
  {
    assume a: "ti < di"
    have "es2 ! Suc ti = (es ! di # drop ti es1) ! Suc 0"
      unfolding es2_def using lt by (metis add.right_neutral add_Suc_right nth_append_length_plus)
    also have "\<dots> = drop ti es1 ! 0" by simp
    also have "\<dots> = es1 ! ti" using a assms(1) l1 by (simp add: hd_drop_conv_nth hd_conv_nth)
    also have "\<dots> = es ! ti" using a assms(1) by (simp add: es1_def nth_append)
    finally show "es2 ! Suc ti = es ! ti" .
  }
  {
    assume a: "di < ti"
    then have "ti - 1 < length (take ti es1)" using lt by simp
    then have "es2 ! (ti - 1) = take ti es1 ! (ti - 1)"
      unfolding es2_def by (simp add: nth_append)
    also have "\<dots> = es1 ! (ti - 1)" using a by simp
    also have "\<dots> = drop (Suc di) es ! (ti - 1 - di)"
    proof -
      have "\<not> ti - 1 < di" using a by arith
      then show ?thesis using assms(1) by (simp add: es1_def nth_append)
    qed
    also have "\<dots> = es ! ti"
    proof -
      have "Suc di + (ti - 1 - di) = ti" using a by arith
      then show ?thesis using assms by simp
    qed
    finally show "es2 ! (ti - 1) = es ! ti" .
  }
qed

lemma reorder_columns_found:
  assumes "distinct_keys prev" "di < length prev" "fst (prev ! di) = dragged"
    and "ti < length prev" "fst (prev ! ti) = target"
  shows "reorder_columns dragged target prev =
     Object_fromEntries
       (take ti (take di prev @ drop (Suc di) prev) @ prev ! di #
        drop ti (take di prev @ drop (Suc di) prev))"
proof -
  from assms have d: "findIndex (\<lambda>(key, col). key = dragged) prev = int di"
    by (intro findIndex_key) (simp_all add: distinct_keys_def)
  from assms have t: "findIndex (\<lambda>(key, col). key = target) prev = int ti"
    by (intro findIndex_key) (simp_all add: distinct_keys_def)
  show ?thesis
    unfolding reorder_columns_def Object_entries_def Let_def d t
    using moved_entries[OF assms(2) assms(4), where f = Object_fromEntries and g = prev]
    by simp
qed

lemma reorder_columns_absent:
  "dragged \<notin> set (map fst prev) \<or> target \<notin> set (map fst prev) \<Longrightarrow>
   reorder_columns dragged target prev = prev"
proof -
  assume a: "dragged \<notin> set (map fst prev) \<or> target \<notin> set (map fst prev)"
  have "findIndex (\<lambda>(key, col). key = k) prev = - 1" if "k \<notin> set (map fst prev)" for k
    using that by (force simp: findIndex_none)
  with a show ?thesis
    by (auto simp: reorder_columns_def Object_entries_def Let_def)
qed

lemma reorder_columns_permutes:
  assumes "distinct_keys prev"
  shows "mset (reorder_columns dragged target prev) = mset prev
     \<and> distinct_keys (reorder_columns dragged target prev)"
proof (cases "dragged \<in> set (map fst prev) \<and> target \<in> set (map fst prev)")
  case False
  then show ?thesis using assms by (simp add: reorder_columns_absent)
next
  case True
  have pos: "\<exists>i < length prev. fst (prev ! i) = k" if "k \<in> set (map fst prev)" for k
  proof -
    from that obtain i where "i < length (map fst prev)" "map fst prev ! i = k"
      unfolding in_set_conv_nth by blast
    then show ?thesis by (intro exI[of _ i]) simp
  qed
  from True pos[of dragged] pos[of target]
  obtain di ti where i: "di < length prev" "fst (prev ! di) = dragged"
      "ti < length prev" "fst (prev ! ti) = target"
    by blast
  let ?es2 = "take ti (take di prev @ drop (Suc di) prev) @ prev ! di #
        drop ti (take di prev @ drop (Suc di) prev)"
  have m: "mset ?es2 = mset prev" using i by (intro moved_nth(5)) simp_all
  have d: "distinct (map fst ?es2)"
    using mset_keys_distinct[OF m] assms by (simp add: distinct_keys_def)
  show ?thesis
    unfolding reorder_columns_found[OF assms i] distinct_keys_def
    using fromEntries_props[OF d] m by simp
qed

lemma step_ColumnDragOver:
  "step st (ColumnDragOver target) =
     (if \<not> truthy (draggedColumn st) \<or> draggedColumn st = Some target then st
      else st\<lparr>columns := reorder_columns (the (draggedColumn st)) target (columns st)\<rparr>)"
  by (simp add: step_def handleColumnDragOver_def dispatch_def Let_def run_Cons run_Nil)

lemma dragging_simps:
  "columns dragging_todo = example_columns" "draggedColumn dragging_todo = Some ''todo''"
  "columns dragging_done = example_columns" "draggedColumn dragging_done = Some ''done''"
  by (simp_all add: dragging_todo_def dragging_done_def example_state_def)

lemma example_columns_nth:
  "length example_columns = 3"
  "fst (example_columns ! 0) = ''todo''" "fst (example_columns ! 1) = ''doing''"
  "fst (example_columns ! 2) = ''done''"
  by (simp_all add: example_columns_def)

text \<open>
  Claim C5, as stated, says that the dragged column is put immediately before the target
  column, the target after it. The handler removes the dragged entry and inserts it at
  the index the target had; for a column dragged to the right the target has moved one
  place to the left by then. Dragging \<^verbatim>\<open>todo\<close> over \<^verbatim>\<open>done\<close> puts it after
  \<^verbatim>\<open>done\<close>.
\<close>

theorem handleColumnDragOver_rightwards_counterexample:
  "map fst (columns dragging_todo) = [''todo'', ''doing'', ''done'']
   \<and> draggedColumn dragging_todo = Some ''todo''
   \<and> map fst (columns (step dragging_todo (ColumnDragOver ''done''))) =
       [''doing'', ''done'', ''todo'']"
proof -
  have "reorder_columns ''todo'' ''done'' example_columns =
      Object_fromEntries
        (take 2 (take 0 example_columns @ drop (Suc 0) example_columns) @ example_columns ! 0 #
         drop 2 (take 0 example_columns @ drop (Suc 0) example_columns))"
    by (rule reorder_columns_found) (simp_all add: example_columns_keys example_columns_nth)
  also have "\<dots> = take 2 (take 0 example_columns @ drop (Suc 0) example_columns) @
         example_columns ! 0 # drop 2 (take 0 example_columns @ drop (Suc 0) example_columns)"
    by (rule fromEntries_ident) (simp_all add: example_columns_def no_index_keys_def)
  finally have "map fst (reorder_columns ''todo'' ''done'' example_columns) =
      [''doing'', ''done'', ''todo'']"
    by (simp add: example_columns_def)
  then show ?thesis
    by (simp add: step_ColumnDragOver dragging_simps truthy_def)
       (simp add: example_columns_def)
qed

lemma reorder_columns_position:
  assumes "distinct_keys prev" "no_index_keys prev"
    and "di < length prev" "fst (prev ! di) = dragged"
    and "ti < length prev" "fst (prev ! ti) = target"
  shows "length (reorder_columns dragged target prev) = length prev"
    and "mset (reorder_columns dragged target prev) = mset prev"
    and "reorder_columns dragged target prev ! ti = prev ! di"
    and "ti < di \<Longrightarrow> reorder_columns dragged target prev ! Suc ti = prev ! ti"
    and "di < ti \<Longrightarrow> reorder_columns dragged target prev ! (ti - 1) = prev ! ti"
    and "filter (\<lambda>(k, c). k \<noteq> dragged) (reorder_columns dragged target prev) =
         filter (\<lambda>(k, c). k \<noteq> dragged) prev"
proof -
  let ?es2 = "take ti (take di prev @ drop (Suc di) prev) @ prev ! di #
        drop ti (take di prev @ drop (Suc di) prev)"
  have m: "mset ?es2 = mset prev" using assms(3,5) by (intro moved_nth(5)) simp_all
  have d: "distinct (map fst ?es2)"
    using mset_keys_distinct[OF m] assms(1) by (simp add: distinct_keys_def)
  have n: "no_index_keys ?es2" using mset_no_index_keys[OF m] assms(2) by simp
  have r: "reorder_columns dragged target prev = ?es2"
    unfolding reorder_columns_found[OF assms(1,3,4,5,6)] by (rule fromEntries_ident[OF d n])
  show "length (reorder_columns dragged target prev) = length prev"
    unfolding r using assms(3,5) by (rule moved_nth(4))
  show "mset (reorder_columns dragged target prev) = mset prev"
    unfolding r by (rule m)
  show "reorder_columns dragged target prev ! ti = prev ! di"
    unfolding r using assms(3,5) by (rule moved_nth(1))
  show "ti < di \<Longrightarrow> reorder_columns dragged target prev ! Suc ti = prev ! ti"
    unfolding r using assms(3,5) by (rule moved_nth(2))
  show "di < ti \<Longrightarrow> reorder_columns dragged target prev ! (ti - 1) = prev ! ti"
    unfolding r using assms(3,5) by (rule moved_nth(3))
  have np: "\<not> (case prev ! di of (k, c) \<Rightarrow> k \<noteq> dragged)"
    using assms(4) by (simp add: case_prod_beta)
  show "filter (\<lambda>(k, c). k \<noteq> dragged) (reorder_columns dragged target prev) =
         filter (\<lambda>(k, c). k \<noteq> dragged) prev"
    unfolding r using assms(3,5) np by (rule moved_nth(6))
qed

text \<open>
  Claim C5, amended. Let a column with a non-empty id be dragged over another column,
  both present, in a column object none of whose keys is an array index. The drag-over
  keeps the entries and puts the dragged column at the index the target column had. The
  other columns keep their order: when the dragged column came from the right of the
  target, the target is the column right after it; when it came from the left, the target
  is the column right before it. The operation changes nothing when no column is being
  dragged (null or the empty id), when the dragged id is the target id, or when either id
  is not a key of the columns.
\<close>

theorem handleColumnDragOver_position:
  "(distinct_keys (columns st) \<and> no_index_keys (columns st)
      \<and> draggedColumn st = Some dragged \<and> dragged \<noteq> [] \<and> dragged \<noteq> target
      \<and> di < length (columns st) \<and> fst (columns st ! di) = dragged
      \<and> ti < length (columns st) \<and> fst (columns st ! ti) = target \<longrightarrow>
      length (columns (step st (ColumnDragOver target))) = length (columns st)
      \<and> mset (columns (step st (ColumnDragOver target))) = mset (columns st)
      \<and> columns (step st (ColumnDragOver target)) ! ti = columns st ! di
      \<and> (ti < di \<longrightarrow> columns (step st (ColumnDragOver target)) ! Suc ti = columns st ! ti)
      \<and> (di < ti \<longrightarrow> columns (step st (ColumnDragOver target)) ! (ti - 1) = columns st ! ti)
      \<and> filter (\<lambda>(k, c). k \<noteq> dragged) (columns (step st (ColumnDragOver target))) =
          filter (\<lambda>(k, c). k \<noteq> dragged) (columns st))
   \<and> (\<not> truthy (draggedColumn st) \<longrightarrow> step st (ColumnDragOver target) = st)
   \<and> (draggedColumn st = Some dragged
        \<and> (dragged = target \<or> dragged \<notin> set (map fst (columns st))
             \<or> target \<notin> set (map fst (columns st))) \<longrightarrow>
      step st (ColumnDragOver target) = st)"
proof -
  have pos: "length (columns (step st (ColumnDragOver target))) = length (columns st)
      \<and> mset (columns (step st (ColumnDragOver target))) = mset (columns st)
      \<and> columns (step st (ColumnDragOver target)) ! ti = columns st ! di
      \<and> (ti < di \<longrightarrow> columns (step st (ColumnDragOver target)) ! Suc ti = columns st ! ti)
      \<and> (di < ti \<longrightarrow> columns (step st (ColumnDragOver target)) ! (ti - 1) = columns st ! ti)
      \<and> filter (\<lambda>(k, c). k \<noteq> dragged) (columns (step st (ColumnDragOver target))) =
          filter (\<lambda>(k, c). k \<noteq> dragged) (columns st)"
    if a: "distinct_keys (columns st)" "no_index_keys (columns st)"
      "draggedColumn st = Some dragged" "dragged \<noteq> []" "dragged \<noteq> target"
      "di < length (columns st)" "fst (columns st ! di) = dragged"
      "ti < length (columns st)" "fst (columns st ! ti) = target"
  proof -
    have s: "columns (step st (ColumnDragOver target)) =
        reorder_columns dragged target (columns st)"
      using a(3,4,5) by (simp add: step_ColumnDragOver truthy_def)
    show ?thesis
      unfolding s using reorder_columns_position[OF a(1,2,6,7,8,9)] by blast
  qed
  have idle: "step st (ColumnDragOver target) = st" if "\<not> truthy (draggedColumn st)"
    using that by (simp add: step_ColumnDragOver)
  have absent: "step st (ColumnDragOver target) = st"
    if "draggedColumn st = Some dragged"
      "dragged = target \<or> dragged \<notin> set (map fst (columns st))
         \<or> target \<notin> set (map fst (columns st))"
    using that by (auto simp: step_ColumnDragOver reorder_columns_absent)
  from pos idle absent show ?thesis by blast
qed

theorem handleColumnDragOver_position_witness:
  "distinct_keys (columns dragging_todo) \<and> no_index_keys (columns dragging_todo)
   \<and> draggedColumn dragging_todo = Some ''todo'' \<and> ''todo'' \<noteq> [] \<and> ''todo'' \<noteq> ''done''
   \<and> fst (columns dragging_todo ! 0) = ''todo'' \<and> fst (columns dragging_todo ! 2) = ''done''
   \<and> fst (columns (step dragging_todo (ColumnDragOver ''done'')) ! 2) = ''todo''
   \<and> fst (columns (step dragging_todo (ColumnDragOver ''done'')) ! 1) = ''done''
   \<and> draggedColumn dragging_done = Some ''done''
   \<and> fst (columns (step dragging_done (ColumnDragOver ''todo'')) ! 0) = ''done''
   \<and> fst (columns (step dragging_done (ColumnDragOver ''todo'')) ! 1) = ''todo''
   \<and> \<not> truthy (draggedColumn example_state)
   \<and> step example_state (ColumnDragOver ''done'') = example_state
   \<and> ''review'' \<notin> set (map fst (columns dragging_todo))
   \<and> step dragging_todo (ColumnDragOver ''review'') = dragging_todo"
  using handleColumnDragOver_position [of dragging_todo "''todo''" "''done''" 0 2]
        handleColumnDragOver_position [of dragging_done "''done''" "''todo''" 2 0]
        handleColumnDragOver_position [of example_state "''todo''" "''done''" 0 2]
        handleColumnDragOver_position [of dragging_todo "''todo''" "''review''" 0 2]
  by (simp add: dragging_simps example_state_simps example_columns_keys example_columns_nth
      truthy_def)
     (simp add: example_columns_def)


text \<open>
  Why the amended claim asks for keys that are not array indices and for a non-empty
  dragged id: \<^verbatim>\<open>Object.fromEntries\<close> enumerates array-index keys in numeric order
  wherever they were inserted, so columns keyed \<^verbatim>\<open>1\<close> and \<^verbatim>\<open>2\<close> cannot be reordered;
  and the guard \<^verbatim>\<open>!draggedColumn\<close> treats the empty id as no drag at all.
\<close>

lemma reorder_index_keys_example:
  "map fst (reorder_columns ''2'' ''1''
      [(''1'', example_column ''1'' []), (''2'', example_column ''2'' [])]) = [''1'', ''2'']"
proof -
  have a: "array_index ''1''" "array_index ''2''"
    by (simp_all add: array_index_def is_digit_def index_value_def digit_value_def)
  have v: "index_value ''1'' < index_value ''2''" "\<not> index_value ''2'' < index_value ''1''"
    by (simp_all add: index_value_def digit_value_def)
  show ?thesis
    by (simp add: reorder_columns_def Object_entries_def Let_def Array_splice_def
        Object_fromEntries_def set_prop_def a v)
qed

lemma empty_dragged_id_idle:
  "draggedColumn st = Some [] \<Longrightarrow> step st (ColumnDragOver target) = st"
  by (simp add: step_ColumnDragOver truthy_def)

subsection \<open>Sequences of column drags\<close>

lemma step_column_drag:
  assumes "is_column_drag a" "distinct_keys (columns st)"
  shows "mset (columns (step st a)) = mset (columns st) \<and> distinct_keys (columns (step st a))"
proof (cases a)
  case (ColumnDragStart colId)
  then show ?thesis
    using assms(2)
    by (simp add: step_def handleColumnDragStart_def dispatch_def Let_def run_Cons run_Nil)
next
  case (ColumnDragOver target)
  then show ?thesis
    using assms(2) reorder_columns_permutes[OF assms(2)]
    by (simp add: step_ColumnDragOver)
next
  case TaskDragEnd
  then show ?thesis
    using assms(2)
    by (simp add: step_def handleTaskDragEnd_def dispatch_def Let_def run_Cons run_Nil)
qed (use assms(1) in simp_all)

text \<open>
  Claim C6. Whatever sequence of column drags is applied (drag starts, drag-overs and
  drag ends, in any order and with any ids), the columns afterwards are a permutation of
  the columns before: the same entries of column id and column, none created, none
  duplicated, none lost, and no key twice. The columns, being the properties of an
  object, start with no key twice.
\<close>

theorem column_drags_permute:
  "list_all is_column_drag as \<Longrightarrow> distinct_keys (columns st) \<Longrightarrow>
   mset (columns (steps st as)) = mset (columns st) \<and> distinct_keys (columns (steps st as))"
proof (induction as arbitrary: st)
  case Nil
  then show ?case by (simp add: steps_def)
next
  case (Cons a as)
  from Cons.prems have a: "is_column_drag a" and as: "list_all is_column_drag as" by simp_all
  from step_column_drag[OF a Cons.prems(2)]
  have s: "mset (columns (step st a)) = mset (columns st)" "distinct_keys (columns (step st a))"
    by simp_all
  have "steps st (a # as) = steps (step st a) as" by (simp add: steps_def)
  with Cons.IH[OF as s(2)] s(1) show ?case by simp
qed

theorem column_drags_permute_witness:
  "list_all is_column_drag
     [ColumnDragStart ''todo'', ColumnDragOver ''done'', ColumnDragOver ''doing'', TaskDragEnd]
   \<and> distinct_keys (columns example_state)
   \<and> mset (columns (steps example_state
        [ColumnDragStart ''todo'', ColumnDragOver ''done'', ColumnDragOver ''doing'', TaskDragEnd]))
      = mset (columns example_state)"
  using column_drags_permute [of
      "[ColumnDragStart ''todo'', ColumnDragOver ''done'', ColumnDragOver ''doing'', TaskDragEnd]"
      example_state]
  by (simp add: example_state_simps example_columns_keys)

end
